theory Spec2Isabelle
  imports Complex_Main "HOL-Library.AList"
begin

section \<open>Platooning verification system: shallow embedding\<close>

text \<open>
  Python floats are modelled as real numbers: arithmetic is exact, so rounding, infinities
  and NaN are outside the model.  \<open>float('inf')\<close> as the initial minimum of a search is
  modelled by an absent accumulator.  Exceptions that the modelled code can raise are values
  of \<open>py_error\<close>.  A method keeps its name without the leading underscore; an object is the
  record of its attributes, and a method that writes attributes returns the new record.
\<close>

datatype py_error = KeyError | ZeroDivisionError

subsection \<open>core/verified\_controller.py and core/safety\_monitor.py\<close>

record SafetyParameters =
  max_deceleration :: real
  max_acceleration :: real
  min_safe_distance :: real
  reaction_time :: real
  sensor_error_bound :: real
  communication_delay :: real

text \<open>The dataclass defaults; \<open>FormalPlatooningController.__init__\<close> always uses them.\<close>

definition default_safety_params :: SafetyParameters where
  "default_safety_params =
     \<lparr>max_deceleration = 4.0, max_acceleration = 2.0, min_safe_distance = 3.0,
      reaction_time = 0.2, sensor_error_bound = 0.1, communication_delay = 0.1\<rparr>"

text \<open>\<open>FormalPlatooningController._calculate_safe_distance\<close>.  Float division by zero
  raises in Python, so a zero \<open>max_deceleration\<close> is an error branch.\<close>

definition fc_calculate_safe_distance :: "SafetyParameters \<Rightarrow> real \<Rightarrow> real \<Rightarrow> py_error + real" where
  "fc_calculate_safe_distance sp v_ego v_pred =
     (let d_reaction = v_ego * reaction_time sp in
      if 2 * max_deceleration sp = 0 then Inl ZeroDivisionError
      else
        let d_stop_ego = (v_ego ^ 2) / (2 * max_deceleration sp);
            d_stop_pred = (v_pred ^ 2) / (2 * max_deceleration sp);
            d_stopping = max 0 (d_stop_ego - d_stop_pred)
        in Inr (d_reaction + d_stopping + min_safe_distance sp))"

text \<open>\<open>SafetyMonitor._calculate_safe_distance\<close>, with its own literal constants.\<close>

definition sm_calculate_safe_distance :: "real \<Rightarrow> real \<Rightarrow> real" where
  "sm_calculate_safe_distance v_ego v_pred =
     (let reaction_time = 0.2; max_decel = 4.0; min_distance = 3.0;
          d_reaction = v_ego * reaction_time;
          d_stop_ego = (v_ego ^ 2) / (2 * max_decel);
          d_stop_pred = (v_pred ^ 2) / (2 * max_decel);
          d_stopping = max 0 (d_stop_ego - d_stop_pred)
      in d_reaction + d_stopping + min_distance)"

subsection \<open>simulation/enhanced\_environment.py: data\<close>

datatype VehicleRole = LEADER | FOLLOWER | PRIORITY

datatype Lane = RIGHT | MIDDLE | LEFT

datatype VehicleType = NORMAL | AMBULANCE | EMERGENCY

text \<open>The \<open>value\<close> of a \<open>Lane\<close> member.\<close>

fun lane_value :: "Lane \<Rightarrow> int" where
  "lane_value RIGHT = 0"
| "lane_value MIDDLE = 1"
| "lane_value LEFT = 2"

text \<open>\<open>EnhancedVehicleAction\<close>; the field \<open>acceleration\<close> is \<open>act_acceleration\<close> here,
  as the vehicle has a field of the same name.\<close>

record EnhancedVehicleAction =
  act_acceleration :: real
  target_lane :: "Lane option"
  emergency :: bool
  reason :: string
  priority_override :: bool

text \<open>The attributes of an \<open>EnhancedVehicle\<close> object (\<open>id\<close>, \<open>x\<close>, \<open>y\<close>, \<open>length\<close> and
  \<open>width\<close> are renamed \<open>vid\<close>, \<open>x_pos\<close>, \<open>y_pos\<close>, \<open>veh_length\<close> and \<open>veh_width\<close>).
  The emoji of \<open>symbol\<close> are kept as their UTF-8 bytes.\<close>

record EnhancedVehicle =
  vid :: string
  role :: VehicleRole
  vehicle_type :: VehicleType
  lane :: Lane
  lane_target_y :: real
  x_pos :: real
  y_pos :: real
  velocity :: real
  acceleration :: real
  veh_length :: real
  veh_width :: real
  color :: string
  symbol :: string
  is_changing_lane :: bool
  lane_change_progress :: real
  lane_change_speed :: real
  previous_lane :: Lane
  emergency_braking :: bool
  emergency_start_time :: real

definition symbol_car :: string where
  "symbol_car = [CHR 0xF0, CHR 0x9F, CHR 0x9A, CHR 0x97]"

definition symbol_ambulance :: string where
  "symbol_ambulance = [CHR 0xF0, CHR 0x9F, CHR 0x9A, CHR 0x91]"

definition symbol_siren :: string where
  "symbol_siren = [CHR 0xF0, CHR 0x9F, CHR 0x9A, CHR 0xA8]"

subsection \<open>EnhancedVehicle: methods\<close>

fun get_lane_center_y :: "Lane \<Rightarrow> real" where
  "get_lane_center_y RIGHT = -4.0"
| "get_lane_center_y MIDDLE = 0.0"
| "get_lane_center_y LEFT = 4.0"

text \<open>\<open>EnhancedVehicle.__init__\<close>.  The number \<open>n\<close> is \<open>int(vehicle_id.split('_')[1])\<close>, the
  index that \<open>_initialize_vehicles\<close> has put into the id.\<close>

definition new_vehicle ::
  "string \<Rightarrow> int \<Rightarrow> VehicleRole \<Rightarrow> VehicleType \<Rightarrow> Lane \<Rightarrow> EnhancedVehicle" where
  "new_vehicle vehicle_id n r ty initial_lane =
     \<lparr>vid = vehicle_id, role = r, vehicle_type = ty, lane = initial_lane,
      lane_target_y = get_lane_center_y initial_lane,
      x_pos = (if r = LEADER then 50.0 else 50.0 - (of_int n * 25.0)),
      y_pos = get_lane_center_y initial_lane,
      velocity = 20.0, acceleration = 0.0, veh_length = 4.5, veh_width = 1.8,
      color = (if r = LEADER \<and> ty = NORMAL then ''#FF6B6B''
               else if ty = AMBULANCE then ''#FF0000''
               else if ty = EMERGENCY then ''#FFA500'' else ''#4FC3F7''),
      symbol = (if ty = AMBULANCE then symbol_ambulance
                else if ty = EMERGENCY then symbol_siren else symbol_car),
      is_changing_lane = False, lane_change_progress = 0.0, lane_change_speed = 2.0,
      previous_lane = initial_lane,
      emergency_braking = False, emergency_start_time = 0.0\<rparr>"

definition update_position :: "EnhancedVehicle \<Rightarrow> real \<Rightarrow> EnhancedVehicle" where
  "update_position v dt =
     (let v1 = v\<lparr>velocity := velocity v + acceleration v * dt\<rparr>;
          v2 = v1\<lparr>velocity := max 0 (min (velocity v1) 30.0)\<rparr>;
          v3 = v2\<lparr>x_pos := x_pos v2 + velocity v2 * dt\<rparr>
      in if is_changing_lane v3 then
           let v4 = v3\<lparr>lane_change_progress := lane_change_progress v3 + lane_change_speed v3 * dt\<rparr>
           in if lane_change_progress v4 \<ge> 1.0 then
                v4\<lparr>is_changing_lane := False, lane_change_progress := 0.0,
                   y_pos := lane_target_y v4\<rparr>
              else
                let start_y = get_lane_center_y (previous_lane v4)
                in v4\<lparr>y_pos := start_y + (lane_target_y v4 - start_y) * lane_change_progress v4\<rparr>
         else v3)"

definition initiate_lane_change :: "EnhancedVehicle \<Rightarrow> Lane \<Rightarrow> EnhancedVehicle" where
  "initiate_lane_change v target =
     (if \<not> is_changing_lane v \<and> target \<noteq> lane v then
        v\<lparr>previous_lane := lane v, lane := target,
          lane_target_y := get_lane_center_y target,
          is_changing_lane := True, lane_change_progress := 0.0\<rparr>
      else v)"

definition trigger_emergency_braking :: "EnhancedVehicle \<Rightarrow> real \<Rightarrow> EnhancedVehicle" where
  "trigger_emergency_braking v current_time =
     v\<lparr>emergency_braking := True, emergency_start_time := current_time,
       acceleration := -8.0\<rparr>"

definition get_bounding_box :: "EnhancedVehicle \<Rightarrow> real \<times> real \<times> real \<times> real" where
  "get_bounding_box v =
     (x_pos v - veh_length v / 2, x_pos v + veh_length v / 2,
      y_pos v - veh_width v / 2, y_pos v + veh_width v / 2)"

subsection \<open>EnhancedPlatooningController\<close>

text \<open>The controller's parameters are set once in \<open>__init__\<close> and never written again.
  A controller is identified with its vehicle: every function below takes the current
  state \<open>ego\<close> of \<open>self.vehicle\<close>, and the values \<open>vs\<close> of \<open>vehicle_states\<close> in dictionary order.
  The controllers read only the \<open>'object'\<close> entry of each state, which is the vehicle object
  itself and not a copy; \<open>vs\<close> is therefore the list of the vehicles as they are at the time
  of the call.\<close>

definition safe_time_gap :: real where "safe_time_gap = 2.5"
definition min_distance :: real where "min_distance = 10.0"
definition ctl_max_acceleration :: real where "ctl_max_acceleration = 2.0"
definition max_braking :: real where "max_braking = -6.0"

text \<open>\<open>np.clip(a, a_min, a_max)\<close> is \<open>minimum(a_max, maximum(a, a_min))\<close>.\<close>

definition np_clip :: "real \<Rightarrow> real \<Rightarrow> real \<Rightarrow> real" where
  "np_clip a a_min a_max = min a_max (max a a_min)"

definition calculate_safe_distance :: "EnhancedVehicle \<Rightarrow> real \<Rightarrow> real" where
  "calculate_safe_distance ego relative_velocity =
     min_distance + max 0 (velocity ego) * safe_time_gap"

fun get_adjacent_lanes :: "Lane \<Rightarrow> Lane list" where
  "get_adjacent_lanes RIGHT = [MIDDLE]"
| "get_adjacent_lanes MIDDLE = [LEFT, RIGHT]"
| "get_adjacent_lanes LEFT = [MIDDLE]"

text \<open>The search loop of \<open>_find_closest_vehicle\<close>.  The accumulator holds
  \<open>(closest_vehicle, min_distance, relative_velocity)\<close>; \<open>None\<close> stands for the initial
  \<open>(None, inf, 0.0)\<close>, below which every distance lies.\<close>

fun find_closest_loop ::
  "EnhancedVehicle \<Rightarrow> EnhancedVehicle list \<Rightarrow> (EnhancedVehicle \<times> real \<times> real) option
   \<Rightarrow> (EnhancedVehicle \<times> real \<times> real) option" where
  "find_closest_loop ego [] acc = acc"
| "find_closest_loop ego (vehicle_obj # rest) acc =
     (if vid vehicle_obj = vid ego then find_closest_loop ego rest acc
      else
        let distance = x_pos vehicle_obj - x_pos ego - veh_length ego;
            lateral_distance = \<bar>y_pos vehicle_obj - y_pos ego\<bar>
        in if lateral_distance < 4.0 \<and> distance > 0 \<and>
              (case acc of None \<Rightarrow> True | Some (c, md, rv) \<Rightarrow> distance < md)
           then find_closest_loop ego rest
                  (Some (vehicle_obj, distance, velocity vehicle_obj - velocity ego))
           else find_closest_loop ego rest acc)"

definition find_closest_vehicle ::
  "EnhancedVehicle \<Rightarrow> EnhancedVehicle list \<Rightarrow> (EnhancedVehicle \<times> real \<times> real) option" where
  "find_closest_vehicle ego vs = find_closest_loop ego vs None"

fun is_lane_clear_for_emergency :: "EnhancedVehicle \<Rightarrow> Lane \<Rightarrow> EnhancedVehicle list \<Rightarrow> bool" where
  "is_lane_clear_for_emergency ego tgt [] = True"
| "is_lane_clear_for_emergency ego tgt (vehicle_obj # rest) =
     (if vid vehicle_obj = vid ego then is_lane_clear_for_emergency ego tgt rest
      else if \<bar>y_pos vehicle_obj - get_lane_center_y tgt\<bar> < 2.5 \<and>
              \<bar>x_pos vehicle_obj - x_pos ego\<bar> < 20.0 then False
      else is_lane_clear_for_emergency ego tgt rest)"

definition evaluate_emergency_lane_change ::
  "EnhancedVehicle \<Rightarrow> EnhancedVehicle list \<Rightarrow> real \<Rightarrow> real \<Rightarrow> Lane option" where
  "evaluate_emergency_lane_change ego vs current_distance safe_distance =
     (if is_changing_lane ego then None
      else find (\<lambda>l. is_lane_clear_for_emergency ego l vs) (get_adjacent_lanes (lane ego)))"

definition check_emergency_ahead ::
  "EnhancedVehicle \<Rightarrow> EnhancedVehicle list \<Rightarrow> real \<Rightarrow> EnhancedVehicleAction option" where
  "check_emergency_ahead ego vs current_time =
     (case find_closest_vehicle ego vs of
        None \<Rightarrow> None
      | Some (closest_vehicle, distance, relative_velocity) \<Rightarrow>
          if emergency_braking closest_vehicle then
            let safe_distance = calculate_safe_distance ego relative_velocity;
                time_since_emergency = current_time - emergency_start_time closest_vehicle;
                reaction_multiplier = (if time_since_emergency < 1.0 then 2.0 else 1.0 :: real)
            in if distance < safe_distance * 1.5 then
                 (case evaluate_emergency_lane_change ego vs distance safe_distance of
                    Some tgt \<Rightarrow>
                      Some \<lparr>act_acceleration = -4.0, target_lane = Some tgt, emergency = True,
                            reason = ''Emergency lane change! '' @ vid closest_vehicle @ '' braking'',
                            priority_override = False\<rparr>
                  | None \<Rightarrow>
                      Some \<lparr>act_acceleration = min max_braking (-6.0 * reaction_multiplier),
                            target_lane = None, emergency = True,
                            reason = symbol_siren @ '' EMERGENCY! '' @ vid closest_vehicle
                                       @ '' braking hard!'',
                            priority_override = False\<rparr>)
               else None
          else None)"

fun is_lane_clear :: "EnhancedVehicle \<Rightarrow> Lane \<Rightarrow> EnhancedVehicle list \<Rightarrow> bool" where
  "is_lane_clear ego tgt [] = True"
| "is_lane_clear ego tgt (vehicle_obj # rest) =
     (if vid vehicle_obj = vid ego then is_lane_clear ego tgt rest
      else if \<bar>y_pos vehicle_obj - get_lane_center_y tgt\<bar> < 2.2 \<and>
              \<bar>x_pos vehicle_obj - x_pos ego\<bar>
                < calculate_safe_distance ego (velocity vehicle_obj - velocity ego) * 1.8
           then False
      else is_lane_clear ego tgt rest)"

definition evaluate_lane_change ::
  "EnhancedVehicle \<Rightarrow> EnhancedVehicle list \<Rightarrow> real \<Rightarrow> real \<Rightarrow> Lane option" where
  "evaluate_lane_change ego vs current_distance safe_distance =
     (if is_changing_lane ego \<or> current_distance > safe_distance * 0.8 then None
      else find (\<lambda>l. is_lane_clear ego l vs) (get_adjacent_lanes (lane ego)))"

definition maintain_speed_action :: "EnhancedVehicle \<Rightarrow> EnhancedVehicleAction" where
  "maintain_speed_action ego =
     (let target_velocity = 25.0;
          velocity_error = target_velocity - velocity ego
      in \<lparr>act_acceleration = np_clip (velocity_error * 0.3) (-1.5) 1.5, target_lane = None,
           emergency = False, reason = ''Priority vehicle maintaining speed'',
           priority_override = False\<rparr>)"

text \<open>\<open>_compute_priority_action\<close>; \<open>maintain_speed_action\<close> is its last statement, which
  every path that does not return earlier reaches.\<close>

definition compute_priority_action ::
  "EnhancedVehicle \<Rightarrow> EnhancedVehicle list \<Rightarrow> EnhancedVehicleAction" where
  "compute_priority_action ego vs =
     (case find_closest_vehicle ego vs of
        None \<Rightarrow> maintain_speed_action ego
      | Some (closest_vehicle, distance, relative_velocity) \<Rightarrow>
          let safe_distance = calculate_safe_distance ego relative_velocity
          in if distance < safe_distance * 1.2 then
               (case evaluate_lane_change ego vs distance safe_distance of
                  Some tgt \<Rightarrow>
                    \<lparr>act_acceleration = 1.0, target_lane = Some tgt, emergency = False,
                     reason = ''Overtaking '' @ vid closest_vehicle, priority_override = False\<rparr>
                | None \<Rightarrow>
                    \<lparr>act_acceleration = np_clip ((distance - safe_distance) * 0.1) (-2.0) 0,
                     target_lane = None, emergency = False,
                     reason = ''Following '' @ vid closest_vehicle, priority_override = False\<rparr>)
             else maintain_speed_action ego)"

fun is_lane_clear_for_yield :: "EnhancedVehicle \<Rightarrow> Lane \<Rightarrow> EnhancedVehicle list \<Rightarrow> bool" where
  "is_lane_clear_for_yield ego tgt [] = True"
| "is_lane_clear_for_yield ego tgt (vehicle_obj # rest) =
     (if vid vehicle_obj = vid ego then is_lane_clear_for_yield ego tgt rest
      else if \<bar>y_pos vehicle_obj - get_lane_center_y tgt\<bar> < 2.8 then
        let longitudinal_distance = x_pos vehicle_obj - x_pos ego
        in if longitudinal_distance > 0 \<and> longitudinal_distance < 25.0 then False
           else if longitudinal_distance < 0 \<and> \<bar>longitudinal_distance\<bar> < 15.0 then False
           else is_lane_clear_for_yield ego tgt rest
      else is_lane_clear_for_yield ego tgt rest)"

definition find_priority_vehicle ::
  "EnhancedVehicle \<Rightarrow> EnhancedVehicle list \<Rightarrow> EnhancedVehicle option" where
  "find_priority_vehicle ego vs =
     find (\<lambda>vehicle_obj. role vehicle_obj = PRIORITY \<and> vid vehicle_obj \<noteq> vid ego) vs"

text \<open>\<open>list.sort\<close> is stable, as \<open>sort_key\<close> is.\<close>

definition find_yield_lane :: "EnhancedVehicle \<Rightarrow> EnhancedVehicle list \<Rightarrow> Lane option" where
  "find_yield_lane ego vs =
     (let adjacent_lanes = get_adjacent_lanes (lane ego);
          adjacent_lanes' =
            (case find_priority_vehicle ego vs of
               Some priority_vehicle \<Rightarrow>
                 sort_key (\<lambda>l. \<bar>lane_value l - lane_value (lane priority_vehicle)\<bar>) adjacent_lanes
             | None \<Rightarrow> adjacent_lanes)
      in find (\<lambda>l. is_lane_clear_for_yield ego l vs) adjacent_lanes')"

text \<open>The loop of \<open>_check_priority_yield\<close> over the remaining states \<open>rest\<close>; \<open>vs\<close> is the
  whole dictionary, which \<open>_find_yield_lane\<close> searches.\<close>

fun check_priority_yield_loop ::
  "EnhancedVehicle \<Rightarrow> EnhancedVehicle list \<Rightarrow> EnhancedVehicle list
   \<Rightarrow> EnhancedVehicleAction option" where
  "check_priority_yield_loop ego vs [] = None"
| "check_priority_yield_loop ego vs (vehicle_obj # rest) =
     (if vid vehicle_obj = vid ego \<or> role vehicle_obj \<noteq> PRIORITY
      then check_priority_yield_loop ego vs rest
      else
        let lateral_distance = \<bar>y_pos vehicle_obj - y_pos ego\<bar>;
            longitudinal_distance = x_pos ego - x_pos vehicle_obj
        in if longitudinal_distance > 0 \<and> longitudinal_distance < 50.0 \<and>
              lateral_distance < 3.5 \<and> velocity vehicle_obj > velocity ego
           then
             (case find_yield_lane ego vs of
                Some tgt \<Rightarrow>
                  if tgt \<noteq> lane ego then
                    Some \<lparr>act_acceleration = -1.0, target_lane = Some tgt, emergency = False,
                          reason = ''Yielding to priority vehicle '' @ vid vehicle_obj,
                          priority_override = True\<rparr>
                  else
                    Some \<lparr>act_acceleration = -3.0, target_lane = None, emergency = False,
                          reason = ''Making space for priority vehicle '' @ vid vehicle_obj,
                          priority_override = True\<rparr>
              | None \<Rightarrow>
                  Some \<lparr>act_acceleration = -3.0, target_lane = None, emergency = False,
                        reason = ''Making space for priority vehicle '' @ vid vehicle_obj,
                        priority_override = True\<rparr>)
           else check_priority_yield_loop ego vs rest)"

definition check_priority_yield ::
  "EnhancedVehicle \<Rightarrow> EnhancedVehicle list \<Rightarrow> EnhancedVehicleAction option" where
  "check_priority_yield ego vs = check_priority_yield_loop ego vs vs"

definition compute_leader_action :: "EnhancedVehicle \<Rightarrow> EnhancedVehicleAction" where
  "compute_leader_action ego =
     (let target_velocity = 20.0;
          velocity_error = target_velocity - velocity ego
      in \<lparr>act_acceleration = np_clip (velocity_error * 0.2) (-1.0) 1.0, target_lane = None,
           emergency = False, reason = ''Leader maintaining speed'',
           priority_override = False\<rparr>)"

definition compute_follower_action ::
  "EnhancedVehicle \<Rightarrow> EnhancedVehicle list \<Rightarrow> EnhancedVehicleAction" where
  "compute_follower_action ego vs =
     (case check_priority_yield ego vs of
        Some yield_action \<Rightarrow> yield_action
      | None \<Rightarrow>
          (case find_closest_vehicle ego vs of
             None \<Rightarrow>
               \<lparr>act_acceleration = 0.0, target_lane = None, emergency = False,
                reason = ''No vehicle ahead'', priority_override = False\<rparr>
           | Some (closest_vehicle, distance, relative_velocity) \<Rightarrow>
               let safe_distance = calculate_safe_distance ego relative_velocity
               in if distance < safe_distance * 0.9 then
                    \<lparr>act_acceleration = np_clip ((distance - safe_distance) * 0.3) max_braking 0,
                     target_lane = None, emergency = False,
                     reason = ''Maintaining distance to '' @ vid closest_vehicle,
                     priority_override = False\<rparr>
                  else if distance > safe_distance * 1.3 then
                    \<lparr>act_acceleration =
                       np_clip ((distance - safe_distance) * 0.05) 0 ctl_max_acceleration,
                     target_lane = None, emergency = False,
                     reason = ''Closing gap to '' @ vid closest_vehicle,
                     priority_override = False\<rparr>
                  else
                    \<lparr>act_acceleration = 0.0, target_lane = None, emergency = False,
                     reason = ''Maintaining distance to '' @ vid closest_vehicle,
                     priority_override = False\<rparr>))"

definition compute_action ::
  "EnhancedVehicle \<Rightarrow> EnhancedVehicle list \<Rightarrow> real \<Rightarrow> EnhancedVehicleAction" where
  "compute_action ego vs current_time =
     (case check_emergency_ahead ego vs current_time of
        Some emergency_action \<Rightarrow> emergency_action
      | None \<Rightarrow>
          if role ego = PRIORITY then compute_priority_action ego vs
          else
            (case check_priority_yield ego vs of
               Some yield_action \<Rightarrow> yield_action
             | None \<Rightarrow>
                 if role ego = LEADER then compute_leader_action ego
                 else compute_follower_action ego vs))"

subsection \<open>EnhancedPlatooningSimulation\<close>

text \<open>The dictionary that \<open>_get_vehicle_state\<close> builds.\<close>

record VehicleStateDict =
  st_id :: string
  st_role :: VehicleRole
  st_vehicle_type :: VehicleType
  st_x :: real
  st_y :: real
  st_velocity :: real
  st_acceleration :: real
  st_lane :: Lane
  st_is_changing_lane :: bool
  st_length :: real
  st_width :: real
  st_color :: string
  st_symbol :: string
  st_emergency_braking :: bool

text \<open>An entry of \<open>history\<close>.  An entry of \<open>'actions'\<close> holds the action twice, as the
  object and as \<open>to_dict()\<close> of it; the model keeps the action once.\<close>

record StepRecord =
  sr_time :: real
  sr_vehicles :: "(string \<times> VehicleStateDict) list"
  sr_actions :: "(string \<times> EnhancedVehicleAction) list"
  sr_collisions :: "(string \<times> string) list"

text \<open>The simulation object.  A dictionary is an association list in insertion order.
  \<open>_initialize_vehicles\<close> is the only writer of \<open>vehicles\<close> and \<open>controllers\<close>, and stores
  under each id a vehicle and the controller of that very vehicle; \<open>controllers\<close> is
  therefore the list of its keys, in iteration order.\<close>

record EnhancedPlatooningSimulation =
  dt :: real
  time :: real
  vehicles :: "(string \<times> EnhancedVehicle) list"
  controllers :: "string list"
  history :: "StepRecord list"
  scenario :: string
  emergency_vehicle :: "string option"
  priority_vehicle :: "string option"
  emergency_triggered :: bool
  priority_added :: bool

definition get_vehicle_state :: "EnhancedVehicle \<Rightarrow> VehicleStateDict" where
  "get_vehicle_state vehicle =
     \<lparr>st_id = vid vehicle, st_role = role vehicle, st_vehicle_type = vehicle_type vehicle,
      st_x = x_pos vehicle, st_y = y_pos vehicle, st_velocity = velocity vehicle,
      st_acceleration = acceleration vehicle, st_lane = lane vehicle,
      st_is_changing_lane = is_changing_lane vehicle, st_length = veh_length vehicle,
      st_width = veh_width vehicle, st_color = color vehicle, st_symbol = symbol vehicle,
      st_emergency_braking = emergency_braking vehicle\<rparr>"

definition set_emergency_vehicle ::
  "EnhancedPlatooningSimulation \<Rightarrow> string \<Rightarrow> EnhancedPlatooningSimulation" where
  "set_emergency_vehicle s vehicle_id =
     (if vehicle_id \<in> set (map fst (vehicles s)) then s\<lparr>emergency_vehicle := Some vehicle_id\<rparr>
      else s)"

definition set_priority_vehicle ::
  "EnhancedPlatooningSimulation \<Rightarrow> string \<Rightarrow> EnhancedPlatooningSimulation" where
  "set_priority_vehicle s vehicle_id =
     (if vehicle_id \<in> set (map fst (vehicles s)) \<and> \<not> priority_added s then
        s\<lparr>vehicles :=
            AList.map_entry vehicle_id
              (\<lambda>vehicle. vehicle\<lparr>role := PRIORITY, vehicle_type := AMBULANCE,
                                  color := ''#FF0000'', symbol := symbol_ambulance\<rparr>)
              (vehicles s),
          priority_vehicle := Some vehicle_id,
          priority_added := True\<rparr>
      else s)"

text \<open>Truth value of \<open>self.emergency_vehicle\<close>: neither \<open>None\<close> nor the empty string.\<close>

fun truthy :: "string option \<Rightarrow> bool" where
  "truthy None = False"
| "truthy (Some n) = (n \<noteq> [])"

text \<open>\<open>trigger_emergency\<close> returns its result and the simulation after the call; what it
  prints is not modelled.\<close>

definition trigger_emergency ::
  "EnhancedPlatooningSimulation \<Rightarrow> py_error + (bool \<times> EnhancedPlatooningSimulation)" where
  "trigger_emergency s =
     (if truthy (emergency_vehicle s) \<and> \<not> emergency_triggered s then
        (case emergency_vehicle s of
           None \<Rightarrow> Inr (False, s)
         | Some ev \<Rightarrow>
             (case map_of (vehicles s) ev of
                None \<Rightarrow> Inl KeyError
              | Some vehicle \<Rightarrow>
                  Inr (True,
                       s\<lparr>vehicles :=
                           AList.update ev (trigger_emergency_braking vehicle (time s)) (vehicles s),
                         emergency_triggered := True\<rparr>)))
      else Inr (False, s))"

text \<open>Lines 513 to 517 of \<open>step\<close>: the action is applied to the vehicle at once.\<close>

definition apply_action :: "EnhancedVehicle \<Rightarrow> EnhancedVehicleAction \<Rightarrow> EnhancedVehicle" where
  "apply_action vehicle action =
     (let v1 = vehicle\<lparr>acceleration := act_acceleration action\<rparr>
      in case target_lane action of
           None \<Rightarrow> v1
         | Some tgt \<Rightarrow> if tgt \<noteq> lane v1 then initiate_lane_change v1 tgt else v1)"

text \<open>The first loop of \<open>step\<close>, over the controllers in their order.  Each controller
  computes on the vehicles as the controllers before it have left them.\<close>

fun controllers_loop ::
  "string list \<Rightarrow> real \<Rightarrow> (string \<times> EnhancedVehicle) list
   \<Rightarrow> (string \<times> EnhancedVehicleAction) list
   \<Rightarrow> py_error + ((string \<times> EnhancedVehicle) list \<times> (string \<times> EnhancedVehicleAction) list)" where
  "controllers_loop [] t vs actions = Inr (vs, actions)"
| "controllers_loop (k # ks) t vs actions =
     (case map_of vs k of
        None \<Rightarrow> Inl KeyError
      | Some ego \<Rightarrow>
          let action = compute_action ego (map snd vs) t
          in controllers_loop ks t (AList.update k (apply_action ego action) vs)
               (AList.update k action actions))"

definition boxes_overlap :: "EnhancedVehicle \<Rightarrow> EnhancedVehicle \<Rightarrow> bool" where
  "boxes_overlap v1 v2 =
     (case get_bounding_box v1 of (x1_min, x1_max, y1_min, y1_max) \<Rightarrow>
      case get_bounding_box v2 of (x2_min, x2_max, y2_min, y2_max) \<Rightarrow>
        let margin = 0.3;
            x_overlap = ((x1_min - margin) < (x2_max + margin) \<and> (x1_max + margin) > (x2_min - margin));
            y_overlap = ((y1_min - margin) < (y2_max + margin) \<and> (y1_max + margin) > (y2_min - margin))
        in x_overlap \<and> y_overlap)"

fun check_collisions :: "EnhancedVehicle list \<Rightarrow> (string \<times> string) list" where
  "check_collisions [] = []"
| "check_collisions (v1 # rest) =
     map (\<lambda>v2. (vid v1, vid v2)) (filter (boxes_overlap v1) rest) @ check_collisions rest"

definition step ::
  "EnhancedPlatooningSimulation \<Rightarrow> py_error + EnhancedPlatooningSimulation" where
  "step s =
     (case controllers_loop (controllers s) (time s) (vehicles s) [] of
        Inl e \<Rightarrow> Inl e
      | Inr (vs1, actions) \<Rightarrow>
          let vs2 = map (\<lambda>(k, vehicle). (k, update_position vehicle (dt s))) vs1;
              collisions = check_collisions (map snd vs2);
              entry = \<lparr>sr_time = time s,
                       sr_vehicles = map (\<lambda>(k, vehicle). (k, get_vehicle_state vehicle)) vs2,
                       sr_actions = actions, sr_collisions = collisions\<rparr>
          in Inr (s\<lparr>vehicles := vs2, history := history s @ [entry],
                    time := time s + dt s\<rparr>))"

text \<open>What one call of \<open>step\<close> appends to the history: the collision list, and the action
  recorded for a vehicle.\<close>

definition step_collisions ::
  "EnhancedPlatooningSimulation \<Rightarrow> py_error + (string \<times> string) list" where
  "step_collisions s =
     (case step s of Inl e \<Rightarrow> Inl e | Inr s' \<Rightarrow> Inr (sr_collisions (last (history s'))))"

definition step_action ::
  "EnhancedPlatooningSimulation \<Rightarrow> string \<Rightarrow> py_error + EnhancedVehicleAction option" where
  "step_action s k =
     (case step s of
        Inl e \<Rightarrow> Inl e
      | Inr s' \<Rightarrow> Inr (map_of (sr_actions (last (history s'))) k))"

text \<open>The commands that a caller can issue between construction and \<open>reset\<close>, and a run as
  a sequence of them.\<close>

datatype sim_op = Step | TriggerEmergency | SetEmergencyVehicle string | SetPriorityVehicle string

fun apply_sim_op ::
  "EnhancedPlatooningSimulation \<Rightarrow> sim_op \<Rightarrow> py_error + EnhancedPlatooningSimulation" where
  "apply_sim_op s Step = step s"
| "apply_sim_op s TriggerEmergency =
     (case trigger_emergency s of Inl e \<Rightarrow> Inl e | Inr (b, s') \<Rightarrow> Inr s')"
| "apply_sim_op s (SetEmergencyVehicle n) = Inr (set_emergency_vehicle s n)"
| "apply_sim_op s (SetPriorityVehicle n) = Inr (set_priority_vehicle s n)"

fun run_ops ::
  "EnhancedPlatooningSimulation \<Rightarrow> sim_op list \<Rightarrow> py_error + EnhancedPlatooningSimulation" where
  "run_ops s [] = Inr s"
| "run_ops s (c # cs) = (case apply_sim_op s c of Inl e \<Rightarrow> Inl e | Inr s' \<Rightarrow> run_ops s' cs)"

subsection \<open>Lane-change state machine: sequences of operations\<close>






subsection \<open>Properties used to state the results\<close>

text \<open>What the first loop of \<open>step\<close> leaves as it is in every vehicle.\<close>

definition controller_frame :: "EnhancedVehicle \<Rightarrow> EnhancedVehicle \<Rightarrow> bool" where
  "controller_frame v v' \<longleftrightarrow>
     vid v' = vid v \<and> role v' = role v \<and> x_pos v' = x_pos v \<and> y_pos v' = y_pos v \<and>
     velocity v' = velocity v \<and> veh_length v' = veh_length v \<and> veh_width v' = veh_width v \<and>
     emergency_braking v' = emergency_braking v \<and>
     emergency_start_time v' = emergency_start_time v"

definition loop_frame :: "EnhancedVehicle \<Rightarrow> EnhancedVehicle \<Rightarrow> bool" where
  "loop_frame v v' \<longleftrightarrow>
     controller_frame v v' \<and> (acceleration v \<le> 2 \<longrightarrow> acceleration v' \<le> 2)"

text \<open>The gap between a vehicle and the one ahead: bumper to bumper, as
  \<open>_find_closest_vehicle\<close> measures \<open>distance\<close>, and centre to centre, as
  \<open>SafetyMonitor.verify_safety\<close> measures \<open>actual_gap\<close>.\<close>

definition actual_gap :: "EnhancedVehicle \<Rightarrow> EnhancedVehicle \<Rightarrow> real" where
  "actual_gap ego pred = x_pos pred - x_pos ego - veh_length ego"

definition center_gap :: "EnhancedVehicle \<Rightarrow> EnhancedVehicle \<Rightarrow> real" where
  "center_gap ego pred = x_pos pred - x_pos ego"

text \<open>A pair of vehicles keeps the safe distance: the one behind is the ego vehicle.\<close>

definition gap_maintained ::
  "(EnhancedVehicle \<Rightarrow> EnhancedVehicle \<Rightarrow> real) \<Rightarrow> EnhancedVehicle \<Rightarrow> EnhancedVehicle \<Rightarrow> bool" where
  "gap_maintained gap a b =
     (if x_pos a \<le> x_pos b
      then gap a b \<ge> sm_calculate_safe_distance (velocity a) (velocity b)
      else gap b a \<ge> sm_calculate_safe_distance (velocity b) (velocity a))"

fun all_pairs :: "('a \<Rightarrow> 'a \<Rightarrow> bool) \<Rightarrow> 'a list \<Rightarrow> bool" where
  "all_pairs P [] = True"
| "all_pairs P (v # rest) = (list_all (P v) rest \<and> all_pairs P rest)"

text \<open>A vehicle with the constructor's length, a velocity that is not negative and an
  acceleration within the controller's bounds.\<close>

definition standard_vehicle :: "EnhancedVehicle \<Rightarrow> bool" where
  "standard_vehicle v \<longleftrightarrow>
     veh_length v = 4.5 \<and> 0 \<le> velocity v \<and>
     max_braking \<le> acceleration v \<and> acceleration v \<le> ctl_max_acceleration"

definition emergency_flags :: "(string \<times> EnhancedVehicle) list \<Rightarrow> (string \<times> bool \<times> real) list" where
  "emergency_flags vs = map (\<lambda>(k, v). (k, emergency_braking v, emergency_start_time v)) vs"

subsection \<open>Concrete simulations\<close>

text \<open>The attributes that \<open>EnhancedPlatooningSimulation.__init__\<close> sets, around the vehicles
  and controllers that \<open>_initialize_vehicles\<close> has stored.\<close>

definition new_sim :: "real \<Rightarrow> (string \<times> EnhancedVehicle) list \<Rightarrow> EnhancedPlatooningSimulation" where
  "new_sim d vs =
     \<lparr>dt = d, time = 0.0, vehicles = vs, controllers = map fst vs, history = [],
      scenario = ''basic'', emergency_vehicle = None, priority_vehicle = None,
      emergency_triggered = False, priority_added = False\<rparr>"

text \<open>The first three vehicles of \<open>_initialize_vehicles\<close>.\<close>

definition vehicle_0 :: EnhancedVehicle where
  "vehicle_0 = new_vehicle ''vehicle_0'' 0 LEADER NORMAL MIDDLE"

definition vehicle_1 :: EnhancedVehicle where
  "vehicle_1 = new_vehicle ''vehicle_1'' 1 FOLLOWER NORMAL MIDDLE"

definition vehicle_2 :: EnhancedVehicle where
  "vehicle_2 = new_vehicle ''vehicle_2'' 2 FOLLOWER NORMAL LEFT"

text \<open>\<open>EnhancedPlatooningSimulation(3, 0.1)\<close>.\<close>

definition sim3 :: EnhancedPlatooningSimulation where
  "sim3 = new_sim 0.1
     [(''vehicle_0'', vehicle_0), (''vehicle_1'', vehicle_1), (''vehicle_2'', vehicle_2)]"

text \<open>Three vehicles: \<open>vehicle_0\<close> is the priority vehicle, at 22 m/s and 20 m behind
  \<open>vehicle_1\<close> in the middle lane; \<open>vehicle_2\<close> drives in the left lane, 60 m ahead of
  \<open>vehicle_0\<close>.\<close>

definition priority_scene :: EnhancedPlatooningSimulation where
  "priority_scene =
     set_priority_vehicle
       (new_sim 0.1
          [(''vehicle_0'', vehicle_0\<lparr>x_pos := 0, velocity := 22\<rparr>),
           (''vehicle_1'', vehicle_1\<lparr>x_pos := 20\<rparr>),
           (''vehicle_2'', vehicle_2\<lparr>x_pos := 60\<rparr>)])
       ''vehicle_0''"

text \<open>The same simulation with the controllers of the first two vehicles visited in the
  other order.\<close>

definition priority_scene_reordered :: EnhancedPlatooningSimulation where
  "priority_scene_reordered =
     priority_scene\<lparr>controllers := [''vehicle_1'', ''vehicle_0'', ''vehicle_2'']\<rparr>"

text \<open>Two vehicles in the middle lane at 10.5 m/s, their centres 5.1 m apart, the leader
  behind.\<close>

definition close_pair_scene :: EnhancedPlatooningSimulation where
  "close_pair_scene =
     new_sim 0.1
       [(''vehicle_0'', vehicle_0\<lparr>x_pos := 0, velocity := 10.5\<rparr>),
        (''vehicle_1'', vehicle_1\<lparr>x_pos := 5.1, velocity := 10.5\<rparr>)]"

text \<open>A time step of 5 s: the leader stands 126 m ahead of a follower at 30 m/s.\<close>

definition coarse_tick_scene :: EnhancedPlatooningSimulation where
  "coarse_tick_scene =
     new_sim 5
       [(''vehicle_0'', vehicle_0\<lparr>x_pos := 126, velocity := 0\<rparr>),
        (''vehicle_1'', vehicle_1\<lparr>x_pos := 0, velocity := 30\<rparr>)]"


text \<open>A simulation in which every controller and the designated emergency vehicle are
  keys of \<open>vehicles\<close>, as the constructor and \<open>set_emergency_vehicle\<close> leave it.\<close>

definition sim_wf :: "EnhancedPlatooningSimulation \<Rightarrow> bool" where
  "sim_wf s \<longleftrightarrow>
     set (controllers s) \<subseteq> fst ` set (vehicles s) \<and>
     (\<forall>ev. emergency_vehicle s = Some ev \<longrightarrow> ev \<in> fst ` set (vehicles s))"

text \<open>A run that steps, triggers again, designates another vehicle, triggers once more,
  assigns a priority vehicle and steps.\<close>

definition emergency_run :: "sim_op list" where
  "emergency_run = [Step, TriggerEmergency, SetEmergencyVehicle ''vehicle_1'',
                    TriggerEmergency, SetPriorityVehicle ''vehicle_2'', Step]"

text \<open>The vehicles among which \<open>_find_closest_vehicle\<close> searches the predecessor: another
  vehicle, laterally closer than 4 m, with its centre more than a vehicle length ahead.\<close>

definition predecessor_candidate :: "EnhancedVehicle \<Rightarrow> EnhancedVehicle \<Rightarrow> bool" where
  "predecessor_candidate ego other \<longleftrightarrow>
     vid other \<noteq> vid ego \<and> \<bar>y_pos other - y_pos ego\<bar> < 4.0 \<and>
     x_pos other - x_pos ego - veh_length ego > 0"

text \<open>The condition under which \<open>_check_priority_yield\<close> yields to a vehicle.\<close>

definition priority_behind :: "EnhancedVehicle \<Rightarrow> EnhancedVehicle \<Rightarrow> bool" where
  "priority_behind ego other \<longleftrightarrow>
     vid other \<noteq> vid ego \<and> role other = PRIORITY \<and>
     x_pos ego - x_pos other > 0 \<and> x_pos ego - x_pos other < 50.0 \<and>
     \<bar>y_pos other - y_pos ego\<bar> < 3.5 \<and> velocity other > velocity ego"

text \<open>\<open>EnhancedPlatooningSimulation(3, 0.1)\<close> after \<open>set_emergency_vehicle('vehicle_0')\<close> and
  \<open>trigger_emergency()\<close>.\<close>

definition emergency_scene :: EnhancedPlatooningSimulation where
  "emergency_scene =
     sim3\<lparr>vehicles := AList.update ''vehicle_0'' (trigger_emergency_braking vehicle_0 0) (vehicles sim3),
          emergency_vehicle := Some ''vehicle_0'', emergency_triggered := True\<rparr>"

text \<open>One step takes a vehicle \<open>v\<close> to \<open>w\<close>: the controller loop, then the kinematic
  update.\<close>

definition ticked :: "real \<Rightarrow> EnhancedVehicle \<Rightarrow> EnhancedVehicle \<Rightarrow> bool" where
  "ticked d v w \<longleftrightarrow> (\<exists>v'. loop_frame v v' \<and> w = update_position v' d)"

section \<open>Auxiliary facts\<close>

subsection \<open>The controller loop of a step\<close>

lemma controller_frame_refl: "controller_frame v v"
  by (simp add: controller_frame_def)

lemma controller_frame_trans:
  "controller_frame a b \<Longrightarrow> controller_frame b c \<Longrightarrow> controller_frame a c"
  by (simp add: controller_frame_def)

lemma apply_action_frame: "controller_frame v (apply_action v a)"
  by (simp add: controller_frame_def apply_action_def initiate_lane_change_def Let_def
      split: option.splits)

lemma apply_action_acceleration: "acceleration (apply_action v a) = act_acceleration a"
  by (simp add: apply_action_def initiate_lane_change_def Let_def split: option.splits)

lemma check_priority_yield_loop_Some:
  "check_priority_yield_loop ego vs rest = Some a \<Longrightarrow>
   act_acceleration a \<le> 2 \<and> priority_override a"
  by (induction rest) (auto simp: Let_def split: if_splits option.splits)

lemma check_emergency_ahead_Some:
  "check_emergency_ahead ego vs t = Some a \<Longrightarrow> act_acceleration a \<le> 2 \<and> emergency a"
  by (auto simp: check_emergency_ahead_def Let_def max_braking_def
      split: option.splits if_splits)

lemma compute_priority_action_le: "act_acceleration (compute_priority_action ego vs) \<le> 2"
  by (auto simp: compute_priority_action_def maintain_speed_action_def Let_def np_clip_def
      split: option.splits)

lemma compute_follower_action_le: "act_acceleration (compute_follower_action ego vs) \<le> 2"
  by (auto simp: compute_follower_action_def check_priority_yield_def Let_def np_clip_def
        ctl_max_acceleration_def max_braking_def
      dest: check_priority_yield_loop_Some split: option.splits)

lemma compute_action_le: "act_acceleration (compute_action ego vs t) \<le> 2"
  by (auto simp: compute_action_def compute_leader_action_def check_priority_yield_def
        compute_priority_action_le compute_follower_action_le np_clip_def Let_def
      dest: check_priority_yield_loop_Some check_emergency_ahead_Some split: option.splits)

lemma update_frame:
  "map_of vs k = Some ego \<Longrightarrow> P ego v' \<Longrightarrow> (\<And>v. P v v) \<Longrightarrow>
   list_all2 (\<lambda>p q. fst q = fst p \<and> P (snd p) (snd q)) vs (AList.update k v' vs)"
  by (induction vs) (auto simp: list_all2_refl split: if_splits)

lemma controllers_loop_frame:
  "controllers_loop ks t vs acts = Inr (vs', acts') \<Longrightarrow>
   list_all2 (\<lambda>p q. fst q = fst p \<and> loop_frame (snd p) (snd q)) vs vs'"
proof (induction ks arbitrary: vs acts)
  case Nil
  then show ?case by (simp add: list_all2_refl loop_frame_def controller_frame_refl)
next
  case (Cons k ks)
  from Cons.prems obtain ego where ego: "map_of vs k = Some ego"
    by (auto split: option.splits)
  let ?vs1 = "AList.update k (apply_action ego (compute_action ego (map snd vs) t)) vs"
  from Cons.prems ego
  have rest: "controllers_loop ks t ?vs1
       (AList.update k (compute_action ego (map snd vs) t) acts) = Inr (vs', acts')"
    by (simp add: Let_def)
  have one: "list_all2 (\<lambda>p q. fst q = fst p \<and> loop_frame (snd p) (snd q)) vs ?vs1"
    by (rule update_frame [OF ego])
       (simp_all add: loop_frame_def apply_action_frame apply_action_acceleration
          compute_action_le controller_frame_refl)
  have more: "list_all2 (\<lambda>p q. fst q = fst p \<and> loop_frame (snd p) (snd q)) ?vs1 vs'"
    by (rule Cons.IH [OF rest])
  show ?case
    by (rule list_all2_trans [OF _ one more])
       (auto simp: loop_frame_def intro: controller_frame_trans)
qed

text \<open>The loop raises no \<open>KeyError\<close> when every controller's id is a key of \<open>vehicles\<close>.\<close>

lemma controllers_loop_total:
  "set ks \<subseteq> set (map fst vs) \<Longrightarrow> \<exists>r. controllers_loop ks t vs acts = Inr r"
proof (induction ks arbitrary: vs acts)
  case Nil
  then show ?case by simp
next
  case (Cons k ks)
  then obtain ego where ego: "map_of vs k = Some ego"
    by (metis list.set_intros(1) subsetD map_of_eq_None_iff not_None_eq set_map)
  have keys: "map fst (AList.update k v vs) = map fst vs" for v
    using ego by (simp add: update_keys map_of_eq_None_iff [symmetric] del: map_of_eq_None_iff)
  show ?case
    using Cons.prems Cons.IH [of "AList.update k _ vs"] ego
    by (simp add: Let_def keys)
qed

lemma step_total:
  assumes "set (controllers s) \<subseteq> set (map fst (vehicles s))"
  shows "\<exists>s'. step s = Inr s'"
proof -
  from controllers_loop_total [OF assms]
  obtain r where "controllers_loop (controllers s) (time s) (vehicles s) [] = Inr r"
    by blast
  then show ?thesis
    by (cases r) (simp add: step_def Let_def)
qed

lemma step_vehicles:
  assumes "step s = Inr s'"
  shows "\<exists>vs1 acts. controllers_loop (controllers s) (time s) (vehicles s) [] = Inr (vs1, acts)
           \<and> vehicles s' = map (\<lambda>(k, vehicle). (k, update_position vehicle (dt s))) vs1
           \<and> history s' = history s @
                 [\<lparr>sr_time = time s,
                   sr_vehicles = map (\<lambda>(k, vehicle). (k, get_vehicle_state vehicle)) (vehicles s'),
                   sr_actions = acts,
                   sr_collisions = check_collisions (map snd (vehicles s'))\<rparr>]
           \<and> emergency_triggered s' = emergency_triggered s
           \<and> emergency_vehicle s' = emergency_vehicle s"
  using assms by (auto simp: step_def Let_def split: sum.splits prod.splits)

subsection \<open>The lane-change invariant of a vehicle\<close>





subsection \<open>Keys and emergency flags along a run\<close>

lemma frame_keys:
  "list_all2 (\<lambda>p q. fst q = fst p \<and> P (snd p) (snd q)) vs vs' \<Longrightarrow> map fst vs' = map fst vs"
  by (induction rule: list_all2_induct) auto

lemma frame_flags:
  "list_all2 (\<lambda>p q. fst q = fst p \<and> loop_frame (snd p) (snd q)) vs vs' \<Longrightarrow>
   emergency_flags vs' = emergency_flags vs"
  by (induction rule: list_all2_induct)
     (auto simp: emergency_flags_def loop_frame_def controller_frame_def)

lemma update_position_flags:
  "emergency_braking (update_position v d) = emergency_braking v \<and>
   emergency_start_time (update_position v d) = emergency_start_time v"
  by (simp add: update_position_def Let_def)

lemma emergency_flags_update_position:
  "emergency_flags (map (\<lambda>(k, vehicle). (k, update_position vehicle d)) vs) = emergency_flags vs"
  by (induction vs) (auto simp: emergency_flags_def update_position_flags)

lemma step_keys_flags:
  assumes "step s = Inr s'"
  shows "map fst (vehicles s') = map fst (vehicles s)
       \<and> emergency_flags (vehicles s') = emergency_flags (vehicles s)
       \<and> controllers s' = controllers s \<and> emergency_vehicle s' = emergency_vehicle s
       \<and> emergency_triggered s' = emergency_triggered s"
proof -
  from assms obtain vs1 acts
    where loop: "controllers_loop (controllers s) (time s) (vehicles s) [] = Inr (vs1, acts)"
      and vs: "vehicles s' = map (\<lambda>(k, vehicle). (k, update_position vehicle (dt s))) vs1"
      and rest: "controllers s' = controllers s" "emergency_vehicle s' = emergency_vehicle s"
        "emergency_triggered s' = emergency_triggered s"
    by (auto simp: step_def Let_def split: sum.splits prod.splits)
  note fr = controllers_loop_frame [OF loop]
  have "map fst (vehicles s') = map fst vs1"
    by (simp add: vs comp_def case_prod_unfold)
  with frame_keys [OF fr] frame_flags [OF fr] rest show ?thesis
    by (simp add: vs emergency_flags_update_position)
qed

lemma map_entry_keys: "map fst (AList.map_entry k f al) = map fst al"
  by (induction al) auto

lemma map_entry_flags:
  "emergency_flags (AList.map_entry k
      (\<lambda>vehicle. vehicle\<lparr>role := r, vehicle_type := ty, color := c, symbol := sy\<rparr>) al)
   = emergency_flags al"
  by (induction al) (simp_all add: emergency_flags_def case_prod_unfold)

lemma trigger_emergency_triggered:
  "emergency_triggered s \<Longrightarrow> trigger_emergency s = Inr (False, s)"
  by (simp add: trigger_emergency_def)

lemma apply_sim_op_total:
  assumes "sim_wf s"
  shows "\<exists>s'. apply_sim_op s c = Inr s' \<and> sim_wf s'"
proof (cases c)
  case Step
  from assms have "set (controllers s) \<subseteq> set (map fst (vehicles s))"
    by (simp add: sim_wf_def)
  from step_total [OF this] obtain s' where s': "step s = Inr s'" ..
  from step_keys_flags [OF s'] have "map fst (vehicles s') = map fst (vehicles s)"
    and same: "controllers s' = controllers s" "emergency_vehicle s' = emergency_vehicle s"
    by simp_all
  then have "fst ` set (vehicles s') = fst ` set (vehicles s)"
    by (metis set_map)
  with assms s' Step same show ?thesis
    by (simp add: sim_wf_def)
next
  case TriggerEmergency
  show ?thesis
  proof (cases "truthy (emergency_vehicle s) \<and> \<not> emergency_triggered s")
    case True
    then obtain ev where ev: "emergency_vehicle s = Some ev"
      by (cases "emergency_vehicle s") auto
    with assms have mem: "ev \<in> fst ` set (vehicles s)"
      by (simp add: sim_wf_def)
    then obtain vehicle where veh: "map_of (vehicles s) ev = Some vehicle"
      by (metis map_of_eq_None_iff not_None_eq)
    from mem have keys: "fst ` set (AList.update ev w (vehicles s)) = fst ` set (vehicles s)" for w
      by (auto simp: dom_update)
    show ?thesis
      using True ev veh assms TriggerEmergency
      by (simp add: trigger_emergency_def sim_wf_def keys)
  next
    case False
    then have "trigger_emergency s = Inr (False, s)"
      by (auto simp: trigger_emergency_def)
    then show ?thesis
      using assms TriggerEmergency by simp
  qed
next
  case (SetEmergencyVehicle n)
  then show ?thesis
    using assms by (simp add: set_emergency_vehicle_def sim_wf_def)
next
  case (SetPriorityVehicle n)
  have "fst ` set (AList.map_entry n f (vehicles s)) = fst ` set (vehicles s)" for f
    using map_entry_keys [of n f "vehicles s"] by (metis set_map)
  with SetPriorityVehicle show ?thesis
    using assms by (simp add: set_priority_vehicle_def sim_wf_def)
qed

lemma run_ops_total: "sim_wf s \<Longrightarrow> \<exists>s'. run_ops s cs = Inr s' \<and> sim_wf s'"
proof (induction cs arbitrary: s)
  case Nil
  then show ?case by simp
next
  case (Cons c cs)
  from apply_sim_op_total [OF Cons.prems, of c]
  obtain s1 where "apply_sim_op s c = Inr s1" "sim_wf s1" by blast
  with Cons.IH [of s1] show ?case by simp
qed

lemma apply_sim_op_flags:
  assumes "emergency_triggered s" "apply_sim_op s c = Inr s'"
  shows "emergency_flags (vehicles s') = emergency_flags (vehicles s) \<and> emergency_triggered s'"
proof (cases c)
  case Step
  with assms step_keys_flags [of s s'] show ?thesis by simp
next
  case TriggerEmergency
  with assms show ?thesis by (simp add: trigger_emergency_triggered)
next
  case (SetEmergencyVehicle n)
  with assms show ?thesis by (auto simp: set_emergency_vehicle_def)
next
  case (SetPriorityVehicle n)
  with assms show ?thesis
    by (auto simp: set_priority_vehicle_def map_entry_flags)
qed

lemma run_ops_flags:
  "emergency_triggered s \<Longrightarrow> run_ops s cs = Inr s' \<Longrightarrow>
   emergency_flags (vehicles s') = emergency_flags (vehicles s) \<and> emergency_triggered s'"
proof (induction cs arbitrary: s)
  case Nil
  then show ?case by simp
next
  case (Cons c cs)
  from Cons.prems(2) obtain s1 where s1: "apply_sim_op s c = Inr s1" "run_ops s1 cs = Inr s'"
    by (auto split: sum.splits)
  from apply_sim_op_flags [OF Cons.prems(1) s1(1)] Cons.IH [OF _ s1(2)]
  show ?case by simp
qed

lemma map_of_emergency_flags:
  "map_of (emergency_flags vs) k
     = map_option (\<lambda>v. (emergency_braking v, emergency_start_time v)) (map_of vs k)"
  by (induction vs) (auto simp: emergency_flags_def)

lemma trigger_emergency_frame:
  "trigger_emergency s = Inr (b, s1) \<Longrightarrow>
   map fst (vehicles s1) = map fst (vehicles s) \<and> priority_added s1 = priority_added s"
  by (auto simp: trigger_emergency_def update_keys map_of_eq_None_iff [symmetric]
      simp del: map_of_eq_None_iff split: if_splits option.splits)

subsection \<open>The searches of the controller\<close>

lemma find_closest_loop_None:
  "find_closest_loop ego vs acc = None \<longleftrightarrow>
     acc = None \<and> (\<forall>other\<in>set vs. \<not> predecessor_candidate ego other)"
  by (induction vs arbitrary: acc)
     (auto simp: predecessor_candidate_def Let_def split: option.splits)

lemma find_closest_loop_Some:
  assumes "find_closest_loop ego vs acc = Some (c, gap, rv)"
  shows "(acc = Some (c, gap, rv) \<or>
           (c \<in> set vs \<and> predecessor_candidate ego c \<and>
            gap = x_pos c - x_pos ego - veh_length ego \<and> rv = velocity c - velocity ego))
       \<and> (\<forall>other\<in>set vs. predecessor_candidate ego other \<longrightarrow>
             gap \<le> x_pos other - x_pos ego - veh_length ego)
       \<and> (\<forall>c0 g0 r0. acc = Some (c0, g0, r0) \<longrightarrow> gap \<le> g0)"
  using assms
proof (induction vs arbitrary: acc)
  case Nil
  then show ?case by simp
next
  case (Cons other rest)
  show ?case
  proof (cases "vid other = vid ego")
    case True
    with Cons.prems have "find_closest_loop ego rest acc = Some (c, gap, rv)" by simp
    from Cons.IH [OF this] True show ?thesis
      by (auto simp: predecessor_candidate_def)
  next
    case False
    let ?d = "x_pos other - x_pos ego - veh_length ego"
    show ?thesis
    proof (cases "\<bar>y_pos other - y_pos ego\<bar> < 4.0 \<and> ?d > 0 \<and>
              (case acc of None \<Rightarrow> True | Some (c0, md, r0) \<Rightarrow> ?d < md)")
      case True
      with False Cons.prems
      have "find_closest_loop ego rest (Some (other, ?d, velocity other - velocity ego))
              = Some (c, gap, rv)"
        by (simp add: Let_def)
      from Cons.IH [OF this] True False show ?thesis
        by (auto simp: predecessor_candidate_def split: option.splits)
    next
      case no: False
      with False Cons.prems have "find_closest_loop ego rest acc = Some (c, gap, rv)"
        by (auto simp: Let_def split: if_splits)
      from Cons.IH [OF this] no False show ?thesis
        by (fastforce simp: predecessor_candidate_def split: option.splits)
    qed
  qed
qed

lemma check_priority_yield_loop_None:
  "check_priority_yield_loop ego vs rest = None \<longleftrightarrow>
     (\<forall>other\<in>set rest. \<not> priority_behind ego other)"
  by (induction rest) (auto simp: priority_behind_def Let_def split: option.splits)

lemma calculate_safe_distance_pos: "10 \<le> calculate_safe_distance ego rv"
  by (simp add: calculate_safe_distance_def min_distance_def safe_time_gap_def)

subsection \<open>One tick of the kinematics and the collision detector\<close>

lemma sm_lower: "0.2 * v_ego + 3 \<le> sm_calculate_safe_distance v_ego v_pred"
  by (simp add: sm_calculate_safe_distance_def Let_def)

lemma x_pos_update:
  "x_pos (update_position v d) = x_pos v + max 0 (min (velocity v + acceleration v * d) 30) * d"
  by (simp add: update_position_def Let_def)

lemma veh_length_update: "veh_length (update_position v d) = veh_length v"
  by (simp add: update_position_def Let_def)

lemma travel_upper:
  assumes "0 \<le> d" "d \<le> 0.2" "0 \<le> (w::real)" "a \<le> 2"
  shows "max 0 (min (w + a * d) 30) * d \<le> 0.2 * w + 0.08"
proof -
  have "a * d \<le> 2 * d" using assms by (simp add: mult_right_mono)
  then have "max 0 (min (w + a * d) 30) \<le> w + 2 * d" using assms by auto
  then have "max 0 (min (w + a * d) 30) * d \<le> (w + 2 * d) * d"
    using assms(1) by (rule mult_right_mono)
  also have "\<dots> \<le> (w + 2 * d) * 0.2"
    using assms by (intro mult_left_mono) auto
  also have "\<dots> \<le> 0.2 * w + 0.08" using assms by simp
  finally show ?thesis .
qed

lemma travel_lower: "0 \<le> (d::real) \<Longrightarrow> 0 \<le> max 0 (min w 30) * d"
  by simp

lemma one_tick_gap:
  assumes "0 \<le> d" "d \<le> 0.2" "0 \<le> velocity r" "acceleration r' \<le> 2"
    and "velocity r' = velocity r" "x_pos r' = x_pos r" "x_pos f' = x_pos f"
    and "sm_calculate_safe_distance (velocity r) (velocity f) \<le> x_pos f - x_pos r - 4.5"
  shows "5.1 \<le> x_pos (update_position f' d) - x_pos (update_position r' d)"
proof -
  have up: "max 0 (min (velocity r' + acceleration r' * d) 30) * d \<le> 0.2 * velocity r + 0.08"
    using travel_upper [OF assms(1,2) _ assms(4), of "velocity r"] assms(3,5) by simp
  have lo: "0 \<le> max 0 (min (velocity f' + acceleration f' * d) 30) * d"
    using assms(1) by (rule travel_lower)
  have "0.2 * velocity r + 3 \<le> x_pos f - x_pos r - 4.5"
    using sm_lower [of "velocity r" "velocity f"] assms(8) by linarith
  with up lo show ?thesis
    by (simp add: x_pos_update assms(6,7))
qed

lemma boxes_overlap_far:
  assumes "veh_length a = 4.5" "veh_length b = 4.5" "5.1 \<le> \<bar>x_pos a - x_pos b\<bar>"
  shows "\<not> boxes_overlap a b"
proof
  assume "boxes_overlap a b"
  then have "x_pos a - veh_length a / 2 - 0.3 < x_pos b + veh_length b / 2 + 0.3"
    and "x_pos a + veh_length a / 2 + 0.3 > x_pos b - veh_length b / 2 - 0.3"
    by (simp_all add: boxes_overlap_def get_bounding_box_def Let_def)
  then have "x_pos a - x_pos b < 5.1" and "x_pos b - x_pos a < 5.1"
    using assms(1,2) by simp_all
  with assms(3) show False by linarith
qed

lemma check_collisions_empty:
  "check_collisions ws = [] \<longleftrightarrow> all_pairs (\<lambda>a b. \<not> boxes_overlap a b) ws"
  by (induction ws) (auto simp: filter_empty_conv list_all_iff)

lemma all_pairs_transfer:
  assumes "list_all2 R xs ys" "all_pairs P xs" "list_all U xs"
    and "\<And>a b a' b'. P a b \<Longrightarrow> U a \<Longrightarrow> U b \<Longrightarrow> R a a' \<Longrightarrow> R b b' \<Longrightarrow> Q a' b'"
  shows "all_pairs Q ys"
  using assms(1,2,3)
proof (induction rule: list_all2_induct)
  case Nil
  then show ?case by simp
next
  case (Cons x xs y ys)
  have "Q y w" if "w \<in> set ys" for w
  proof -
    from that obtain n where n: "n < length ys" "w = ys ! n"
      by (auto simp: in_set_conv_nth)
    with Cons.hyps(2) have len: "n < length xs" and rel: "R (xs ! n) w"
      by (simp_all add: list_all2_conv_all_nth)
    from len have mem: "xs ! n \<in> set xs" by simp
    from Cons.prems mem have "P x (xs ! n)" "U x" "U (xs ! n)"
      by (simp_all add: list_all_iff)
    then show ?thesis using Cons.hyps(1) rel by (rule assms(4))
  qed
  then have "list_all (Q y) ys" by (simp add: list_all_iff)
  then show ?case using Cons by simp
qed

lemma ticked_apart:
  assumes d: "0 \<le> d" "d \<le> 0.2"
    and gap: "gap_maintained actual_gap a b"
    and std: "standard_vehicle a" "standard_vehicle b"
    and tick: "ticked d a a2" "ticked d b b2"
  shows "\<not> boxes_overlap a2 b2"
proof -
  from tick obtain a1 b1 where a1: "loop_frame a a1" "a2 = update_position a1 d"
    and b1: "loop_frame b b1" "b2 = update_position b1 d"
    by (auto simp: ticked_def)
  from a1 b1 std have len: "veh_length a2 = 4.5" "veh_length b2 = 4.5"
    by (simp_all add: veh_length_update loop_frame_def controller_frame_def standard_vehicle_def)
  from a1 b1 std
  have fr: "acceleration a1 \<le> 2" "velocity a1 = velocity a" "x_pos a1 = x_pos a"
    "acceleration b1 \<le> 2" "velocity b1 = velocity b" "x_pos b1 = x_pos b"
    "0 \<le> velocity a" "0 \<le> velocity b" "veh_length a = 4.5" "veh_length b = 4.5"
    by (simp_all add: loop_frame_def controller_frame_def standard_vehicle_def
        ctl_max_acceleration_def)
  show ?thesis
  proof (cases "x_pos a \<le> x_pos b")
    case True
    with gap fr have "sm_calculate_safe_distance (velocity a) (velocity b) \<le> x_pos b - x_pos a - 4.5"
      by (simp add: gap_maintained_def actual_gap_def)
    from one_tick_gap [OF d fr(7) fr(1) fr(2) fr(3) fr(6) this]
    have "5.1 \<le> x_pos b2 - x_pos a2" by (simp add: a1 b1)
    then have "5.1 \<le> \<bar>x_pos a2 - x_pos b2\<bar>" by linarith
    with len show ?thesis by (rule boxes_overlap_far)
  next
    case False
    with gap fr have "sm_calculate_safe_distance (velocity b) (velocity a) \<le> x_pos a - x_pos b - 4.5"
      by (simp add: gap_maintained_def actual_gap_def)
    from one_tick_gap [OF d fr(8) fr(4) fr(5) fr(6) fr(3) this]
    have "5.1 \<le> x_pos a2 - x_pos b2" by (simp add: a1 b1)
    then have "5.1 \<le> \<bar>x_pos a2 - x_pos b2\<bar>" by linarith
    with len show ?thesis by (rule boxes_overlap_far)
  qed
qed

lemma frame_ticked:
  "list_all2 (\<lambda>p q. fst q = fst p \<and> loop_frame (snd p) (snd q)) vs vs1 \<Longrightarrow>
   list_all2 (ticked d) (map snd vs)
     (map snd (map (\<lambda>(k, vehicle). (k, update_position vehicle d)) vs1))"
  by (induction rule: list_all2_induct) (auto simp: ticked_def)

subsection \<open>The lane-change invariant along a run of the simulation\<close>











section \<open>Results\<close>

text \<open>
  C1.  For velocities that are not negative, the safe-distance function of the verified
  controller (with the parameters it is built with) and that of the safety monitor return
  exactly reaction distance plus stopping-distance difference, cut off at zero, plus the
  minimum safe distance; the result is never below the minimum safe distance.
\<close>

theorem safe_distance_formula:
  assumes "0 \<le> v_ego" and "0 \<le> v_pred"
  shows "fc_calculate_safe_distance default_safety_params v_ego v_pred =
           Inr (v_ego * reaction_time default_safety_params
                + max 0 (v_ego\<^sup>2 / (2 * max_deceleration default_safety_params)
                         - v_pred\<^sup>2 / (2 * max_deceleration default_safety_params))
                + min_safe_distance default_safety_params)
     \<and> sm_calculate_safe_distance v_ego v_pred =
           v_ego * 0.2 + max 0 (v_ego\<^sup>2 / (2 * 4.0) - v_pred\<^sup>2 / (2 * 4.0)) + 3.0
     \<and> (\<exists>d. fc_calculate_safe_distance default_safety_params v_ego v_pred = Inr d
              \<and> min_safe_distance default_safety_params \<le> d)
     \<and> 3.0 \<le> sm_calculate_safe_distance v_ego v_pred"
proof -
  have pos: "0 \<le> v_ego * (2 / 10)" using assms(1) by simp
  show ?thesis
    using pos
    by (simp add: fc_calculate_safe_distance_def sm_calculate_safe_distance_def
        default_safety_params_def Let_def)
qed

theorem safe_distance_formula_witness:
  "(0::real) \<le> 20 \<and> (0::real) \<le> 15
   \<and> fc_calculate_safe_distance default_safety_params 20 15 = Inr 28.875
   \<and> sm_calculate_safe_distance 20 15 = 28.875"
  using safe_distance_formula [of 20 15]
  by (simp add: default_safety_params_def power2_eq_square)

text \<open>
  C2 (as the code has it).  The verified controller and the safety monitor compute the same
  safe distance for every pair of velocities.  The controller of the simulation computes
  another quantity: its minimum distance of 10 m plus a time gap of 2.5 s at the vehicle's
  own velocity, whatever the velocity of the predecessor.
\<close>

theorem safe_distance_monitor_agrees:
  "fc_calculate_safe_distance default_safety_params v_ego v_pred
     = Inr (sm_calculate_safe_distance v_ego v_pred)
   \<and> calculate_safe_distance ego relative_velocity = 10.0 + max 0 (velocity ego) * 2.5"
  by (simp add: fc_calculate_safe_distance_def sm_calculate_safe_distance_def
      default_safety_params_def Let_def calculate_safe_distance_def min_distance_def
      safe_time_gap_def)

text \<open>
  C2, counterexample.  At 20 m/s behind a vehicle at 20 m/s the controller of the simulation
  asks for 60 m, the verified controller and the monitor for 7 m.
\<close>

theorem safe_distance_single_source_counterexample:
  "calculate_safe_distance vehicle_1 (20 - 20) = 60
   \<and> velocity vehicle_1 = 20
   \<and> sm_calculate_safe_distance 20 20 = 7
   \<and> fc_calculate_safe_distance default_safety_params 20 20 = Inr 7"
  by (simp add: fc_calculate_safe_distance_def sm_calculate_safe_distance_def
      default_safety_params_def Let_def calculate_safe_distance_def min_distance_def
      safe_time_gap_def vehicle_1_def new_vehicle_def)

text \<open>
  C3, at a state where the claim fails.  In \<open>priority_scene\<close> the controller of
  \<open>vehicle_0\<close> is visited first and starts an overtaking lane change to the right; the
  controller of \<open>vehicle_1\<close>, visited next, reads the new lane of \<open>vehicle_0\<close> and yields to
  the right.  Computed on the state before the tick, or with the two controllers visited in
  the other order, the action of \<open>vehicle_1\<close> is to yield to the left.
\<close>

theorem step_order_dependence:
  "step_action priority_scene ''vehicle_1''
     = Inr (Some \<lparr>act_acceleration = - 1, target_lane = Some RIGHT, emergency = False,
                  reason = ''Yielding to priority vehicle vehicle_0'',
                  priority_override = True\<rparr>)
   \<and> step_action priority_scene_reordered ''vehicle_1''
     = Inr (Some \<lparr>act_acceleration = - 1, target_lane = Some LEFT, emergency = False,
                  reason = ''Yielding to priority vehicle vehicle_0'',
                  priority_override = True\<rparr>)
   \<and> compute_action (map snd (vehicles priority_scene) ! 1) (map snd (vehicles priority_scene))
        (time priority_scene)
     = \<lparr>act_acceleration = - 1, target_lane = Some LEFT, emergency = False,
        reason = ''Yielding to priority vehicle vehicle_0'', priority_override = True\<rparr>
   \<and> vehicles priority_scene_reordered = vehicles priority_scene
   \<and> controllers priority_scene = [''vehicle_0'', ''vehicle_1'', ''vehicle_2'']
   \<and> controllers priority_scene_reordered = [''vehicle_1'', ''vehicle_0'', ''vehicle_2'']"
  by code_simp

text \<open>
  C4 (as the code has it).  Let every two vehicles keep the safe distance of the vehicle
  behind, measured from bumper to bumper as the controllers measure \<open>distance\<close>; let every
  vehicle have the constructor's length, a velocity that is not negative and an acceleration
  within the controller's bounds; let the time step lie between 0 and 0.2 s, and every
  controller's id be a key of \<open>vehicles\<close>.  Then \<open>step\<close> returns, and the entry that it appends
  to the history has no collision.
\<close>

theorem one_step_collision_freedom:
  assumes "all_pairs (gap_maintained actual_gap) (map snd (vehicles s))"
    and "list_all standard_vehicle (map snd (vehicles s))"
    and "0 \<le> dt s" and "dt s \<le> 0.2"
    and "set (controllers s) \<subseteq> set (map fst (vehicles s))"
  shows "step_collisions s = Inr []
     \<and> (\<exists>s'. step s = Inr s' \<and> butlast (history s') = history s
            \<and> sr_collisions (last (history s')) = [])"
proof -
  from step_total [OF assms(5)] obtain s' where s': "step s = Inr s'" ..
  from step_vehicles [OF s'] obtain vs1 acts
    where loop: "controllers_loop (controllers s) (time s) (vehicles s) [] = Inr (vs1, acts)"
      and vs: "vehicles s' = map (\<lambda>(k, vehicle). (k, update_position vehicle (dt s))) vs1"
      and hist: "history s' = history s @
                 [\<lparr>sr_time = time s,
                   sr_vehicles = map (\<lambda>(k, vehicle). (k, get_vehicle_state vehicle)) (vehicles s'),
                   sr_actions = acts,
                   sr_collisions = check_collisions (map snd (vehicles s'))\<rparr>]"
    by blast
  from frame_ticked [OF controllers_loop_frame [OF loop], of "dt s"]
  have rel: "list_all2 (ticked (dt s)) (map snd (vehicles s)) (map snd (vehicles s'))"
    by (simp add: vs)
  have "all_pairs (\<lambda>a b. \<not> boxes_overlap a b) (map snd (vehicles s'))"
    using rel assms(1,2)
  proof (rule all_pairs_transfer)
    fix a b a2 b2
    assume "gap_maintained actual_gap a b" "standard_vehicle a" "standard_vehicle b"
      "ticked (dt s) a a2" "ticked (dt s) b b2"
    with assms(3,4) show "\<not> boxes_overlap a2 b2" by (rule ticked_apart)
  qed
  then have "check_collisions (map snd (vehicles s')) = []"
    by (simp add: check_collisions_empty)
  with s' hist show ?thesis by (simp add: step_collisions_def)
qed

theorem one_step_collision_freedom_witness:
  "all_pairs (gap_maintained actual_gap) (map snd (vehicles sim3))
   \<and> list_all standard_vehicle (map snd (vehicles sim3))
   \<and> 0 \<le> dt sim3 \<and> dt sim3 \<le> 0.2
   \<and> set (controllers sim3) \<subseteq> set (map fst (vehicles sim3))
   \<and> step_collisions sim3 = Inr []"
proof -
  have 1: "all_pairs (gap_maintained actual_gap) (map snd (vehicles sim3))"
    and 2: "list_all standard_vehicle (map snd (vehicles sim3))"
    by code_simp+
  have 3: "0 \<le> dt sim3" and 4: "dt sim3 \<le> 0.2"
    and 5: "set (controllers sim3) \<subseteq> set (map fst (vehicles sim3))"
    by (simp_all add: sim3_def new_sim_def)
  from one_step_collision_freedom [OF 1 2 3 4 5] 1 2 3 4 5 show ?thesis by blast
qed

text \<open>
  C4, counterexamples.  With the gap measured between centres, as the safety monitor does,
  two vehicles at 10.5 m/s that are 5.1 m apart keep the safe distance of 5.1 m and do not
  collide, and the step of 0.1 s reports their collision.  With a time step of 5 s, a
  follower at 30 m/s that is 121.5 m (bumper to bumper) behind a standing leader keeps the
  safe distance of 121.5 m, and the step reports a collision.
\<close>

theorem one_step_collision_freedom_counterexample:
  "all_pairs (gap_maintained center_gap) (map snd (vehicles close_pair_scene))
   \<and> list_all standard_vehicle (map snd (vehicles close_pair_scene))
   \<and> dt close_pair_scene = 0.1
   \<and> check_collisions (map snd (vehicles close_pair_scene)) = []
   \<and> step_collisions close_pair_scene = Inr [(''vehicle_0'', ''vehicle_1'')]
   \<and> all_pairs (gap_maintained actual_gap) (map snd (vehicles coarse_tick_scene))
   \<and> all_pairs (gap_maintained center_gap) (map snd (vehicles coarse_tick_scene))
   \<and> list_all standard_vehicle (map snd (vehicles coarse_tick_scene))
   \<and> dt coarse_tick_scene = 5
   \<and> check_collisions (map snd (vehicles coarse_tick_scene)) = []
   \<and> step_collisions coarse_tick_scene = Inr [(''vehicle_0'', ''vehicle_1'')]"
  by code_simp

text \<open>
  C5.  \<open>compute_action\<close> returns the action of the first branch that applies: the action of
  the emergency-ahead check, which has \<open>emergency = True\<close>; otherwise, for a priority vehicle,
  the priority action; otherwise the action of the yield-to-priority check, which has
  \<open>priority_override = True\<close>; otherwise the leader's or the follower's action.  The
  emergency-ahead check applies exactly when the closest vehicle ahead brakes in emergency
  and is nearer than 1.5 safe distances; the yield check, exactly when a faster priority
  vehicle is less than 50 m behind and laterally closer than 3.5 m.
\<close>

theorem compute_action_precedence:
  "(\<forall>a. check_emergency_ahead ego vs t = Some a \<longrightarrow>
        compute_action ego vs t = a \<and> emergency a)
   \<and> (check_emergency_ahead ego vs t = None \<and> role ego = PRIORITY \<longrightarrow>
        compute_action ego vs t = compute_priority_action ego vs)
   \<and> (\<forall>a. check_emergency_ahead ego vs t = None \<and> role ego \<noteq> PRIORITY \<and>
          check_priority_yield ego vs = Some a \<longrightarrow>
        compute_action ego vs t = a \<and> priority_override a)
   \<and> (check_emergency_ahead ego vs t = None \<and> role ego = LEADER \<and>
        check_priority_yield ego vs = None \<longrightarrow>
        compute_action ego vs t = compute_leader_action ego)
   \<and> (check_emergency_ahead ego vs t = None \<and> role ego = FOLLOWER \<and>
        check_priority_yield ego vs = None \<longrightarrow>
        compute_action ego vs t = compute_follower_action ego vs)
   \<and> (check_emergency_ahead ego vs t \<noteq> None \<longleftrightarrow>
        (\<exists>c gap rv. find_closest_vehicle ego vs = Some (c, gap, rv) \<and> emergency_braking c \<and>
           gap < calculate_safe_distance ego rv * 1.5))
   \<and> (check_priority_yield ego vs \<noteq> None \<longleftrightarrow> (\<exists>other\<in>set vs. priority_behind ego other))"
proof -
  have em: "compute_action ego vs t = a \<and> emergency a"
    if "check_emergency_ahead ego vs t = Some a" for a
    using that check_emergency_ahead_Some [OF that] by (simp add: compute_action_def)
  have yl: "compute_action ego vs t = a \<and> priority_override a"
    if "check_emergency_ahead ego vs t = None" "role ego \<noteq> PRIORITY"
      "check_priority_yield ego vs = Some a" for a
    using that check_priority_yield_loop_Some [of ego vs vs a]
    by (simp add: compute_action_def check_priority_yield_def)
  have when_em: "check_emergency_ahead ego vs t \<noteq> None \<longleftrightarrow>
        (\<exists>c gap rv. find_closest_vehicle ego vs = Some (c, gap, rv) \<and> emergency_braking c \<and>
           gap < calculate_safe_distance ego rv * 1.5)"
    by (auto simp: check_emergency_ahead_def Let_def split: option.splits)
  have when_yl: "check_priority_yield ego vs \<noteq> None \<longleftrightarrow> (\<exists>other\<in>set vs. priority_behind ego other)"
    by (simp add: check_priority_yield_def check_priority_yield_loop_None)
  have rest: "(check_emergency_ahead ego vs t = None \<and> role ego = PRIORITY \<longrightarrow>
        compute_action ego vs t = compute_priority_action ego vs)
   \<and> (check_emergency_ahead ego vs t = None \<and> role ego = LEADER \<and>
        check_priority_yield ego vs = None \<longrightarrow>
        compute_action ego vs t = compute_leader_action ego)
   \<and> (check_emergency_ahead ego vs t = None \<and> role ego = FOLLOWER \<and>
        check_priority_yield ego vs = None \<longrightarrow>
        compute_action ego vs t = compute_follower_action ego vs)"
    by (simp add: compute_action_def)
  from em yl when_em when_yl rest show ?thesis by blast
qed

theorem compute_action_precedence_witness:
  "emergency (compute_action vehicle_1 (map snd (vehicles emergency_scene)) 0)
   \<and> compute_action (map snd (vehicles priority_scene) ! 0) (map snd (vehicles priority_scene)) 0
       = compute_priority_action (map snd (vehicles priority_scene) ! 0)
           (map snd (vehicles priority_scene))
   \<and> priority_override
       (compute_action (map snd (vehicles priority_scene) ! 1) (map snd (vehicles priority_scene)) 0)
   \<and> compute_action vehicle_0 (map snd (vehicles sim3)) 0 = compute_leader_action vehicle_0
   \<and> compute_action vehicle_2 (map snd (vehicles sim3)) 0
       = compute_follower_action vehicle_2 (map snd (vehicles sim3))"
proof -
  let ?E = "map snd (vehicles emergency_scene)"
  let ?P = "map snd (vehicles priority_scene)"
  let ?N = "map snd (vehicles sim3)"
  have "check_emergency_ahead vehicle_1 ?E 0 \<noteq> None"
    by code_simp
  then obtain a where a: "check_emergency_ahead vehicle_1 ?E 0 = Some a"
    by blast
  have p: "check_emergency_ahead (?P ! 0) ?P 0 = None \<and> role (?P ! 0) = PRIORITY"
    by code_simp
  have "check_emergency_ahead (?P ! 1) ?P 0 = None \<and> role (?P ! 1) \<noteq> PRIORITY
        \<and> check_priority_yield (?P ! 1) ?P \<noteq> None"
    by code_simp
  then obtain b where b: "check_emergency_ahead (?P ! 1) ?P 0 = None \<and> role (?P ! 1) \<noteq> PRIORITY
        \<and> check_priority_yield (?P ! 1) ?P = Some b"
    by blast
  have l: "check_emergency_ahead vehicle_0 ?N 0 = None \<and> role vehicle_0 = LEADER
        \<and> check_priority_yield vehicle_0 ?N = None"
    by code_simp
  have f: "check_emergency_ahead vehicle_2 ?N 0 = None \<and> role vehicle_2 = FOLLOWER
        \<and> check_priority_yield vehicle_2 ?N = None"
    by code_simp
  from compute_action_precedence [of vehicle_1 ?E 0] a
  have 1: "emergency (compute_action vehicle_1 ?E 0)" by simp
  from compute_action_precedence [of "?P ! 0" ?P 0] p
  have 2: "compute_action (?P ! 0) ?P 0 = compute_priority_action (?P ! 0) ?P" by blast
  from compute_action_precedence [of "?P ! 1" ?P 0] b
  have 3: "priority_override (compute_action (?P ! 1) ?P 0)" by simp
  from compute_action_precedence [of vehicle_0 ?N 0] l
  have 4: "compute_action vehicle_0 ?N 0 = compute_leader_action vehicle_0" by blast
  from compute_action_precedence [of vehicle_2 ?N 0] f
  have 5: "compute_action vehicle_2 ?N 0 = compute_follower_action vehicle_2 ?N" by blast
  from 1 2 3 4 5 show ?thesis by blast
qed

text \<open>
  C6 (as the code has it).  The follower's control law, reached when no yield to a priority
  vehicle applies (as always when \<open>compute_action\<close> falls through to it).  The predecessor
  is the nearest vehicle ahead that is laterally closer than 4 m.  The band is taken around
  the controller's own time-gap distance \<open>safe = 10 + 2.5 * max(0, v_ego)\<close>, which does not
  depend on the predecessor's velocity and is not the safe distance of the safety model.
  With a predecessor, the acceleration is \<open>0.3 * (gap - safe)\<close> cut off at \<open>-6\<close> when
  \<open>gap < 0.9 * safe\<close>, \<open>0.05 * (gap - safe)\<close> cut off at \<open>2\<close> when \<open>gap > 1.3 * safe\<close>, and zero
  in between; without one, the action is zero acceleration with the reason
  \<open>No vehicle ahead\<close>.
\<close>

theorem follower_hysteresis_band:
  assumes "check_priority_yield ego vs = None"
  shows "(find_closest_vehicle ego vs = None \<longleftrightarrow>
            (\<forall>other\<in>set vs. \<not> predecessor_candidate ego other))
     \<and> (find_closest_vehicle ego vs = None \<longrightarrow>
          compute_follower_action ego vs =
            \<lparr>act_acceleration = 0, target_lane = None, emergency = False,
             reason = ''No vehicle ahead'', priority_override = False\<rparr>)
     \<and> (\<forall>c gap rv. find_closest_vehicle ego vs = Some (c, gap, rv) \<longrightarrow>
          c \<in> set vs \<and> predecessor_candidate ego c \<and>
          gap = x_pos c - x_pos ego - veh_length ego \<and>
          (\<forall>other\<in>set vs. predecessor_candidate ego other \<longrightarrow>
             gap \<le> x_pos other - x_pos ego - veh_length ego) \<and>
          (let safe = 10 + max 0 (velocity ego) * 2.5;
               a = act_acceleration (compute_follower_action ego vs)
           in calculate_safe_distance ego rv = safe
            \<and> (gap < 0.9 * safe \<longrightarrow> a = max (- 6) ((gap - safe) * 0.3) \<and> a < 0)
            \<and> (gap > 1.3 * safe \<longrightarrow> a = min 2 ((gap - safe) * 0.05) \<and> 0 < a)
            \<and> (0.9 * safe \<le> gap \<and> gap \<le> 1.3 * safe \<longrightarrow> a = 0)))
     \<and> (check_emergency_ahead ego vs t = None \<and> role ego = FOLLOWER \<longrightarrow>
          compute_action ego vs t = compute_follower_action ego vs)"
proof -
  have none: "find_closest_vehicle ego vs = None \<longleftrightarrow>
            (\<forall>other\<in>set vs. \<not> predecessor_candidate ego other)"
    by (simp add: find_closest_vehicle_def find_closest_loop_None)
  have quiet: "find_closest_vehicle ego vs = None \<longrightarrow>
          compute_follower_action ego vs =
            \<lparr>act_acceleration = 0, target_lane = None, emergency = False,
             reason = ''No vehicle ahead'', priority_override = False\<rparr>"
    using assms by (simp add: compute_follower_action_def)
  have band: "c \<in> set vs \<and> predecessor_candidate ego c \<and>
          gap = x_pos c - x_pos ego - veh_length ego \<and>
          (\<forall>other\<in>set vs. predecessor_candidate ego other \<longrightarrow>
             gap \<le> x_pos other - x_pos ego - veh_length ego) \<and>
          (let safe = 10 + max 0 (velocity ego) * 2.5;
               a = act_acceleration (compute_follower_action ego vs)
           in calculate_safe_distance ego rv = safe
            \<and> (gap < 0.9 * safe \<longrightarrow> a = max (- 6) ((gap - safe) * 0.3) \<and> a < 0)
            \<and> (gap > 1.3 * safe \<longrightarrow> a = min 2 ((gap - safe) * 0.05) \<and> 0 < a)
            \<and> (0.9 * safe \<le> gap \<and> gap \<le> 1.3 * safe \<longrightarrow> a = 0))"
    if found: "find_closest_vehicle ego vs = Some (c, gap, rv)" for c gap rv
  proof -
    from found have loop: "find_closest_loop ego vs None = Some (c, gap, rv)"
      by (simp add: find_closest_vehicle_def)
    from find_closest_loop_Some [OF loop]
    have who: "c \<in> set vs \<and> predecessor_candidate ego c \<and>
          gap = x_pos c - x_pos ego - veh_length ego \<and>
          (\<forall>other\<in>set vs. predecessor_candidate ego other \<longrightarrow>
             gap \<le> x_pos other - x_pos ego - veh_length ego)"
      by blast
    let ?safe = "10 + max 0 (velocity ego) * 2.5"
    have own: "calculate_safe_distance ego rv = ?safe"
      by (simp add: calculate_safe_distance_def min_distance_def safe_time_gap_def)
    have pos: "10 \<le> ?safe" by simp
    have act: "act_acceleration (compute_follower_action ego vs) =
        (if gap < ?safe * 0.9 then np_clip ((gap - ?safe) * 0.3) (- 6) 0
         else if gap > ?safe * 1.3 then np_clip ((gap - ?safe) * 0.05) 0 2
         else 0)"
      using assms found
      by (simp add: compute_follower_action_def Let_def own max_braking_def
          ctl_max_acceleration_def)
    have law: "(gap < 0.9 * ?safe \<longrightarrow>
                  act_acceleration (compute_follower_action ego vs)
                    = max (- 6) ((gap - ?safe) * 0.3)
                  \<and> act_acceleration (compute_follower_action ego vs) < 0)
            \<and> (gap > 1.3 * ?safe \<longrightarrow>
                  act_acceleration (compute_follower_action ego vs)
                    = min 2 ((gap - ?safe) * 0.05)
                  \<and> 0 < act_acceleration (compute_follower_action ego vs))
            \<and> (0.9 * ?safe \<le> gap \<and> gap \<le> 1.3 * ?safe \<longrightarrow>
                  act_acceleration (compute_follower_action ego vs) = 0)"
      using pos unfolding act
      by (auto simp: np_clip_def)
    show ?thesis
      unfolding Let_def using who own law by blast
  qed
  have reach: "check_emergency_ahead ego vs t = None \<and> role ego = FOLLOWER \<longrightarrow>
          compute_action ego vs t = compute_follower_action ego vs"
    using assms by (simp add: compute_action_def)
  from none quiet band reach show ?thesis by blast
qed

theorem follower_hysteresis_band_witness:
  "check_priority_yield vehicle_1 (map snd (vehicles sim3)) = None
   \<and> find_closest_vehicle vehicle_1 (map snd (vehicles sim3)) = Some (vehicle_0, 20.5, 0)
   \<and> velocity vehicle_1 = 20
   \<and> calculate_safe_distance vehicle_1 0 = 60
   \<and> act_acceleration (compute_follower_action vehicle_1 (map snd (vehicles sim3))) = - 6
   \<and> compute_follower_action vehicle_2 (map snd (vehicles sim3)) =
        \<lparr>act_acceleration = 0, target_lane = None, emergency = False,
         reason = ''No vehicle ahead'', priority_override = False\<rparr>"
proof -
  let ?N = "map snd (vehicles sim3)"
  have y1: "check_priority_yield vehicle_1 ?N = None"
    and y2: "check_priority_yield vehicle_2 ?N = None"
    and c1: "find_closest_vehicle vehicle_1 ?N = Some (vehicle_0, 20.5, 0)"
    and c2: "find_closest_vehicle vehicle_2 ?N = None"
    by code_simp+
  have v: "velocity vehicle_1 = 20"
    by (simp add: vehicle_1_def new_vehicle_def)
  note band = follower_hysteresis_band [OF y1, of 0, THEN conjunct2, THEN conjunct2,
      THEN conjunct1, rule_format, OF c1]
  then have safe: "calculate_safe_distance vehicle_1 0 = 60"
    and brake: "act_acceleration (compute_follower_action vehicle_1 ?N) = - 6"
    by (simp_all add: v Let_def)
  from c2 follower_hysteresis_band [OF y2, of 0]
  have quiet: "compute_follower_action vehicle_2 ?N =
        \<lparr>act_acceleration = 0, target_lane = None, emergency = False,
         reason = ''No vehicle ahead'', priority_override = False\<rparr>"
    by blast
  from y1 c1 v safe brake quiet show ?thesis by blast
qed

text \<open>
  C6, counterexample.  In the simulation of three vehicles as constructed, \<open>vehicle_1\<close>
  follows \<open>vehicle_0\<close> at a gap of 20.5 m, both at 20 m/s, and no yield applies.  The safe
  distance of the safety model for these velocities is 7 m, so the gap is above 1.3 times
  it and the band around that distance asks for the closing acceleration
  \<open>min(2, 0.05 * 13.5) = 0.675\<close>.  The follower brakes with \<open>-6\<close>: its band lies around its
  own time-gap distance of 60 m.
\<close>

theorem follower_hysteresis_band_counterexample:
  "check_emergency_ahead vehicle_1 (map snd (vehicles sim3)) 0 = None
   \<and> check_priority_yield vehicle_1 (map snd (vehicles sim3)) = None
   \<and> role vehicle_1 = FOLLOWER
   \<and> find_closest_vehicle vehicle_1 (map snd (vehicles sim3)) = Some (vehicle_0, 20.5, 0)
   \<and> velocity vehicle_1 = 20 \<and> velocity vehicle_0 = 20
   \<and> sm_calculate_safe_distance 20 20 = 7
   \<and> fc_calculate_safe_distance default_safety_params 20 20 = Inr 7
   \<and> (20.5 :: real) > 1.3 * 7
   \<and> min ctl_max_acceleration ((20.5 - 7) * 0.05) = 0.675
   \<and> act_acceleration (compute_follower_action vehicle_1 (map snd (vehicles sim3))) = - 6
   \<and> act_acceleration (compute_action vehicle_1 (map snd (vehicles sim3)) 0) = - 6"
  by code_simp



text \<open>
  C8.  Whatever the acceleration, a kinematic update leaves the velocity in \<open>[0, 30]\<close>; hence
  every vehicle's velocity is in this range after a step.
\<close>

theorem velocity_bounds:
  "0 \<le> velocity (update_position v d) \<and> velocity (update_position v d) \<le> 30
   \<and> (step s = Inr s' \<longrightarrow>
        list_all (\<lambda>(k, vehicle). 0 \<le> velocity vehicle \<and> velocity vehicle \<le> 30) (vehicles s'))"
proof -
  have one: "0 \<le> velocity (update_position w e) \<and> velocity (update_position w e) \<le> 30"
    for w e
    by (simp add: update_position_def Let_def)
  have "list_all (\<lambda>(k, vehicle). 0 \<le> velocity vehicle \<and> velocity vehicle \<le> 30) (vehicles s')"
    if "step s = Inr s'"
  proof -
    from step_vehicles [OF that] obtain vs1
      where "vehicles s' = map (\<lambda>(k, vehicle). (k, update_position vehicle (dt s))) vs1"
      by blast
    then show ?thesis
      using one by (auto simp: list_all_iff)
  qed
  with one show ?thesis by blast
qed

theorem velocity_bounds_witness:
  "\<exists>s'. step sim3 = Inr s'
      \<and> list_all (\<lambda>(k, vehicle). 0 \<le> velocity vehicle \<and> velocity vehicle \<le> 30) (vehicles s')"
proof -
  have "set (controllers sim3) \<subseteq> set (map fst (vehicles sim3))"
    by (simp add: sim3_def new_sim_def)
  then obtain s' where "step sim3 = Inr s'"
    using step_total by blast
  then show ?thesis
    using velocity_bounds [of vehicle_0 0 sim3 s'] by blast
qed

text \<open>
  C9.  A second \<open>trigger_emergency()\<close> after a successful one returns \<open>False\<close> and leaves the
  simulation as the first call left it.  After a priority vehicle has been assigned,
  \<open>set_priority_vehicle\<close> changes nothing, whichever id it is given.
\<close>

theorem external_triggers_idempotent:
  "(trigger_emergency s = Inr (True, s1) \<longrightarrow> trigger_emergency s1 = Inr (False, s1))
   \<and> (n \<in> set (map fst (vehicles s)) \<and> \<not> priority_added s \<longrightarrow>
        priority_added (set_priority_vehicle s n)
        \<and> priority_vehicle (set_priority_vehicle s n) = Some n
        \<and> set_priority_vehicle (set_priority_vehicle s n) m = set_priority_vehicle s n)
   \<and> (priority_added s \<longrightarrow> set_priority_vehicle s m = s)"
proof -
  have again: "trigger_emergency s1 = Inr (False, s1)" if "trigger_emergency s = Inr (True, s1)"
  proof -
    from that have "emergency_triggered s1"
      by (auto simp: trigger_emergency_def split: if_splits option.splits)
    then show ?thesis by (rule trigger_emergency_triggered)
  qed
  have sticky: "set_priority_vehicle s' m = s'" if "priority_added s'" for s'
    using that by (simp add: set_priority_vehicle_def)
  have first: "priority_added (set_priority_vehicle s n)
        \<and> priority_vehicle (set_priority_vehicle s n) = Some n"
    if "n \<in> set (map fst (vehicles s))" "\<not> priority_added s"
    using that by (simp add: set_priority_vehicle_def)
  from again sticky [of s] sticky [of "set_priority_vehicle s n"] first
  show ?thesis by blast
qed

theorem external_triggers_idempotent_witness:
  "\<exists>s1. trigger_emergency (set_emergency_vehicle sim3 ''vehicle_0'') = Inr (True, s1)
      \<and> trigger_emergency s1 = Inr (False, s1)
      \<and> ''vehicle_1'' \<in> set (map fst (vehicles s1)) \<and> \<not> priority_added s1
      \<and> priority_vehicle (set_priority_vehicle s1 ''vehicle_1'') = Some ''vehicle_1''
      \<and> set_priority_vehicle (set_priority_vehicle s1 ''vehicle_1'') ''vehicle_2''
          = set_priority_vehicle s1 ''vehicle_1''"
proof -
  let ?s0 = "set_emergency_vehicle sim3 ''vehicle_0''"
  have wf0: "sim_wf ?s0" and ev0: "emergency_vehicle ?s0 = Some ''vehicle_0''"
    and tr0: "\<not> emergency_triggered ?s0"
    and keys0: "map fst (vehicles ?s0) = [''vehicle_0'', ''vehicle_1'', ''vehicle_2'']"
    and np0: "\<not> priority_added ?s0"
    by (simp_all add: sim_wf_def set_emergency_vehicle_def sim3_def new_sim_def)
  from apply_sim_op_total [OF wf0, of TriggerEmergency]
  obtain b s1 where s1: "trigger_emergency ?s0 = Inr (b, s1)"
    by (auto split: sum.splits prod.splits)
  from s1 ev0 tr0 have b: "b = True"
    by (auto simp: trigger_emergency_def split: option.splits)
  from trigger_emergency_frame [OF s1] keys0 np0
  have keys: "''vehicle_1'' \<in> set (map fst (vehicles s1))" and np: "\<not> priority_added s1"
    by simp_all
  from external_triggers_idempotent [of ?s0 s1] s1 b
  have second: "trigger_emergency s1 = Inr (False, s1)" by simp
  from external_triggers_idempotent [of s1 s1 "''vehicle_1''" "''vehicle_2''"] keys np
  have "priority_vehicle (set_priority_vehicle s1 ''vehicle_1'') = Some ''vehicle_1''"
    and "set_priority_vehicle (set_priority_vehicle s1 ''vehicle_1'') ''vehicle_2''
          = set_priority_vehicle s1 ''vehicle_1''"
    by simp_all
  with s1 b second keys np show ?thesis by simp
qed

text \<open>
  C10.  After a successful \<open>trigger_emergency()\<close>, whatever sequence of steps, further
  triggers, designations and priority assignments follows, every vehicle keeps its
  \<open>emergency_braking\<close> flag and its \<open>emergency_start_time\<close>; the triggered vehicle stays
  flagged with the time of the trigger.  Neither a kinematic update nor the application of
  a controller's action writes the two attributes.
\<close>

theorem emergency_braking_permanent:
  assumes "trigger_emergency s0 = Inr (True, s)" and "run_ops s cs = Inr s'"
  shows "emergency_flags (vehicles s') = emergency_flags (vehicles s)
     \<and> (\<exists>ev. emergency_vehicle s0 = Some ev
            \<and> map_of (emergency_flags (vehicles s')) ev = Some (True, time s0))
     \<and> emergency_braking (update_position v d) = emergency_braking v
     \<and> emergency_start_time (update_position v d) = emergency_start_time v
     \<and> emergency_braking (apply_action v a) = emergency_braking v
     \<and> emergency_start_time (apply_action v a) = emergency_start_time v"
proof -
  from assms(1) obtain ev vehicle where ev: "emergency_vehicle s0 = Some ev"
    and s: "s = s0\<lparr>vehicles := AList.update ev (trigger_emergency_braking vehicle (time s0)) (vehicles s0),
                   emergency_triggered := True\<rparr>"
    by (auto simp: trigger_emergency_def split: if_splits option.splits)
  from s have trig: "emergency_triggered s" by simp
  from s have now: "map_of (emergency_flags (vehicles s)) ev = Some (True, time s0)"
    by (simp add: map_of_emergency_flags update_conv' trigger_emergency_braking_def)
  from run_ops_flags [OF trig assms(2)]
  have keep: "emergency_flags (vehicles s') = emergency_flags (vehicles s)" by simp
  have fr: "controller_frame v (apply_action v a)" by (rule apply_action_frame)
  show ?thesis
    using keep now ev update_position_flags [of v d] fr
    by (simp add: controller_frame_def)
qed

theorem emergency_braking_permanent_witness:
  "\<exists>s s'. trigger_emergency (set_emergency_vehicle sim3 ''vehicle_0'') = Inr (True, s)
      \<and> run_ops s emergency_run = Inr s'
      \<and> map_of (emergency_flags (vehicles s')) ''vehicle_0'' = Some (True, 0)"
proof -
  let ?s0 = "set_emergency_vehicle sim3 ''vehicle_0''"
  have wf0: "sim_wf ?s0" and t0: "time ?s0 = 0" and ev0: "emergency_vehicle ?s0 = Some ''vehicle_0''"
    and tr0: "\<not> emergency_triggered ?s0"
    by (simp_all add: sim_wf_def set_emergency_vehicle_def sim3_def new_sim_def)
  from apply_sim_op_total [OF wf0, of TriggerEmergency]
  obtain b s where s: "trigger_emergency ?s0 = Inr (b, s)" and wf: "sim_wf s"
    by (auto split: sum.splits prod.splits)
  from s ev0 tr0 have b: "b = True"
    by (auto simp: trigger_emergency_def split: option.splits)
  from run_ops_total [OF wf] obtain s' where s': "run_ops s emergency_run = Inr s'"
    by blast
  from emergency_braking_permanent [OF s [unfolded b] s', of vehicle_0 0 "compute_leader_action vehicle_0"] ev0 t0
  show ?thesis using s b s' by auto
qed

end
